theory Spec2Isabelle
  imports Main
begin

section \<open>Scope of the model\<close>

text \<open>
  The development embeds the three source files of the yeoman-helpers package:
  \<^item> \<^verbatim>\<open>src/lib/generator.js\<close>: the \<^verbatim>\<open>Generator\<close> class (\<^verbatim>\<open>extendJson\<close>,
    \<^verbatim>\<open>extendPackage\<close>, \<^verbatim>\<open>extendTsConfig\<close>, \<^verbatim>\<open>addScripts\<close>, \<^verbatim>\<open>sortScripts\<close>,
    \<^verbatim>\<open>optionPrompt\<close>, \<^verbatim>\<open>prompting\<close>) and its three merge customizers;
  \<^item> the prompt type map (\<^verbatim>\<open>confirm: Boolean, input: String\<close>);
  \<^item> the \<^verbatim>\<open>OptionPrompt\<close> class, and the second copy of the \<^verbatim>\<open>Generator\<close> class that
    is stored with it (its \<^verbatim>\<open>addScripts\<close> differs from the one in \<^verbatim>\<open>src/lib\<close>).

  What the package calls but does not define is modelled by its documented behaviour:
  lodash (\<^verbatim>\<open>mergeWith\<close>, \<^verbatim>\<open>assign\<close>, \<^verbatim>\<open>pick\<close>, \<^verbatim>\<open>isArray\<close>, \<^verbatim>\<open>isString\<close>,
  \<^verbatim>\<open>isFunction\<close>), the in-memory file system of the host (\<^verbatim>\<open>readJSON\<close>, \<^verbatim>\<open>writeJSON\<close>),
  the host's \<^verbatim>\<open>prompt\<close> and \<^verbatim>\<open>env.error\<close>, and the JavaScript object itself.

  Modelling decisions:
  \<^item> A JavaScript object is the list of its own properties in enumeration order. ECMAScript
    enumerates the array-index names (canonical decimal numerals below \<open>2^32 - 1\<close>) first, in
    ascending numeric order, and the other names after them in insertion order; \<open>obj_set\<close>
    defines a new own property at that position.
  \<^item> The name \<^verbatim>\<open>__proto__\<close>. A plain assignment \<^verbatim>\<open>o[k] = v\<close> (\<open>obj_assign\<close>) to an object
    without an own property of that name runs the setter inherited from
    \<^verbatim>\<open>Object.prototype\<close>, which ignores a string, number or boolean and defines nothing.
    lodash reads both sides of a merge through \<^verbatim>\<open>safeGet\<close>, which yields \<^verbatim>\<open>undefined\<close> for
    \<^verbatim>\<open>__proto__\<close>, and stores a value with \<^verbatim>\<open>defineProperty\<close> (\<open>obj_set\<close>); so an
    incoming \<^verbatim>\<open>__proto__\<close> member that holds an object or an array is neither merged nor
    stored.
  \<^item> Reading a property of the prompt type map also finds the members every object inherits
    from \<^verbatim>\<open>Object.prototype\<close>, and so does \<^verbatim>\<open>name in scripts\<close>. An inherited member is
    a function. \<^verbatim>\<open>JSON.stringify\<close> does not write a member that holds a function, so where
    \<^verbatim>\<open>sortScripts\<close> stores one, the model removes the member. The reads of \<^verbatim>\<open>safeGet\<close> in
    a merge are modelled on own properties: no customizer of the package combines a
    function, and the merge replaces it as it replaces \<^verbatim>\<open>undefined\<close>.
  \<^item> JSON numbers are integers. A JSON document on disk has an object at its root.
  \<^item> Asynchronous calls are awaited one after the other in the source, so they are modelled
    as ordinary sequential calls.
  \<^item> \<^verbatim>\<open>env.error\<close> belongs to the host. With no error listener registered on the
    environment it throws, which ends the run; with one, it hands the error to the listener
    and returns when the listener does, and the caller goes on. The state records which of
    the two the host does.
  \<^item> The options bag holds \<^verbatim>\<open>undefined\<close>, booleans and strings, the values the two
    supported option kinds produce; it is the host's registry of named options, modelled as
    a function from the option name to the value that a read of the bag yields. An option
    whose name the bag inherits from \<^verbatim>\<open>Object.prototype\<close> (where a read of an unset option
    yields a function, and an assignment to \<^verbatim>\<open>__proto__\<close> defines no property) is outside
    the model.
  \<^item> Not modelled, since no property below depends on them: the constructor's assignment
    of \<^verbatim>\<open>prompting\<close> to the subclass prototype, \<^verbatim>\<open>destinationName\<close> and
    \<^verbatim>\<open>copyTemplate\<close>.
  \<^item> Left unspecified (the definitions return \<open>undefined\<close>, and no statement below covers
    these inputs): a source object merged onto an existing array, a source array merged
    onto an existing object that has a numeric \<^verbatim>\<open>length\<close>, an object or \<^verbatim>\<open>null\<close> assigned
    to \<^verbatim>\<open>__proto__\<close> by a plain assignment (it replaces the prototype), and a \<^verbatim>\<open>scripts\<close>
    member of the package manifest that is present but is not an object.
\<close>

section \<open>JSON values and JavaScript objects\<close>

datatype json =
    JNull
  | JBool bool
  | JNum int
  | JStr string
  | JArr "json list"
  | JObj "(string \<times> json) list"

type_synonym obj = "(string \<times> json) list"

definition isDigit :: "char \<Rightarrow> bool" where
  "isDigit c = (48 \<le> (of_char c :: int) \<and> (of_char c :: int) \<le> 57)"

definition indexValue :: "string \<Rightarrow> int" where
  "indexValue s = foldl (\<lambda>n c. 10 * n + (of_char c - 48)) 0 s"

text \<open>An array index: a canonical numeric string whose value is at most \<open>2^32 - 2\<close>.\<close>

definition isArrayIndex :: "string \<Rightarrow> bool" where
  "isArrayIndex s =
     (s \<noteq> [] \<and> list_all isDigit s \<and> (hd s = CHR ''0'' \<longrightarrow> length s = 1)
      \<and> indexValue s < 4294967295)"

text \<open>\<open>key_before k k'\<close>: a new property \<open>k\<close> is enumerated before the existing \<open>k'\<close>.\<close>

definition key_before :: "string \<Rightarrow> string \<Rightarrow> bool" where
  "key_before k k' = (isArrayIndex k \<and> (isArrayIndex k' \<longrightarrow> indexValue k < indexValue k'))"

fun obj_insert :: "obj \<Rightarrow> string \<Rightarrow> json \<Rightarrow> obj" where
  "obj_insert [] k v = [(k, v)]"
| "obj_insert ((k', v') # kvs) k v =
     (if key_before k k' then (k, v) # (k', v') # kvs else (k', v') # obj_insert kvs k v)"

text \<open>
  \<^verbatim>\<open>k in o\<close> and \<^verbatim>\<open>o[k]\<close> on own properties, \<^verbatim>\<open>defineProperty\<close> (which is also what
  \<^verbatim>\<open>o[k] = v\<close> does for every name but \<^verbatim>\<open>__proto__\<close>) and \<^verbatim>\<open>delete o[k]\<close>.
\<close>

definition obj_has :: "obj \<Rightarrow> string \<Rightarrow> bool" where
  "obj_has kvs k = (k \<in> set (map fst kvs))"

definition obj_get :: "obj \<Rightarrow> string \<Rightarrow> json option" where
  "obj_get kvs k = map_of kvs k"

definition obj_set :: "obj \<Rightarrow> string \<Rightarrow> json \<Rightarrow> obj" where
  "obj_set kvs k v =
     (if obj_has kvs k
      then map (\<lambda>kv. if fst kv = k then (k, v) else kv) kvs
      else obj_insert kvs k v)"

definition obj_delete :: "obj \<Rightarrow> string \<Rightarrow> obj" where
  "obj_delete kvs k = filter (\<lambda>kv. fst kv \<noteq> k) kvs"

text \<open>
  The plain assignment \<^verbatim>\<open>o[k] = v\<close>. For \<^verbatim>\<open>__proto__\<close> on an object that has no own
  property of that name, the inherited setter runs: a value that is neither an object nor
  \<^verbatim>\<open>null\<close> is ignored.
\<close>

fun isObjectOrNull :: "json \<Rightarrow> bool" where
  "isObjectOrNull JNull = True"
| "isObjectOrNull (JArr _) = True"
| "isObjectOrNull (JObj _) = True"
| "isObjectOrNull _ = False"

definition obj_assign :: "obj \<Rightarrow> string \<Rightarrow> json \<Rightarrow> obj" where
  "obj_assign kvs k v =
     (if k = ''__proto__'' \<and> \<not> obj_has kvs k
      then (if isObjectOrNull v then undefined else kvs)
      else obj_set kvs k v)"

text \<open>
  The representation invariant of objects: no name twice, array indices first and ascending.
  Every object that \<^verbatim>\<open>JSON.parse\<close> or an object literal builds satisfies it.
\<close>

fun js_ordered :: "string list \<Rightarrow> bool" where
  "js_ordered [] = True"
| "js_ordered [k] = True"
| "js_ordered (k # k' # ks) =
     ((if isArrayIndex k' then isArrayIndex k \<and> indexValue k < indexValue k' else True)
      \<and> js_ordered (k' # ks))"

definition wf_keys :: "string list \<Rightarrow> bool" where
  "wf_keys ks = (distinct ks \<and> js_ordered ks)"

fun wf_json :: "json \<Rightarrow> bool" where
  "wf_json (JArr xs) = (\<forall>x \<in> set xs. wf_json x)"
| "wf_json (JObj kvs) = (wf_keys (map fst kvs) \<and> (\<forall>kv \<in> set kvs. wf_json (snd kv)))"
| "wf_json _ = True"

definition wf_obj :: "obj \<Rightarrow> bool" where
  "wf_obj kvs = wf_json (JObj kvs)"

text \<open>\<^verbatim>\<open>isObject\<close>: arrays and objects; every other JSON value is a scalar.\<close>

fun isObject :: "json \<Rightarrow> bool" where
  "isObject (JArr _) = True"
| "isObject (JObj _) = True"
| "isObject _ = False"

text \<open>
  No member named \<^verbatim>\<open>__proto__\<close>, at any depth, holds an object or an array.
\<close>

fun proto_safe :: "json \<Rightarrow> bool" where
  "proto_safe (JArr xs) = (\<forall>x \<in> set xs. proto_safe x)"
| "proto_safe (JObj kvs) =
     (\<forall>kv \<in> set kvs. (if fst kv = ''__proto__'' then \<not> isObject (snd kv) else True)
                      \<and> proto_safe (snd kv))"
| "proto_safe _ = True"

section \<open>lodash: mergeWith and assign\<close>

text \<open>
  A customizer receives the existing value and the incoming value (\<open>None\<close> for
  \<^verbatim>\<open>undefined\<close>), and returns the value to store or \<open>None\<close> (\<^verbatim>\<open>undefined\<close>) to leave the
  decision to the default merge. The three customizers of the package read only these two
  arguments, and they decline whenever the existing value is not a JSON value (an
  \<^verbatim>\<open>undefined\<close>, or a function inherited from a prototype).
\<close>

type_synonym customizer = "json option \<Rightarrow> json option \<Rightarrow> json option"

text \<open>\<^verbatim>\<open>safeGet(object, key)\<close>: \<^verbatim>\<open>undefined\<close> for \<^verbatim>\<open>__proto__\<close>, the property otherwise.\<close>

definition safeGet :: "obj \<Rightarrow> string \<Rightarrow> json option" where
  "safeGet kvs k = (if k = ''__proto__'' then None else obj_get kvs k)"

text \<open>
  \<open>merge_value c ov sv\<close> is the value \<^verbatim>\<open>baseMerge\<close> stores under a key whose existing
  value is \<open>ov\<close> and whose incoming value is \<open>sv\<close>:
  \<^item> an incoming array or object goes through \<^verbatim>\<open>baseMergeDeep\<close>: the customizer first; if
    it declines, the incoming value is merged member by member into the existing value when
    that has the same kind, and into a fresh \<^verbatim>\<open>[]\<close> or \<^verbatim>\<open>{}\<close> otherwise (an array is
    merged index by index, a longer existing array keeps its tail);
  \<^item> any other incoming value is stored as the customizer returns it, or as it is.

  \<^verbatim>\<open>baseMerge\<close> goes through the members of the source in order. Both values are read with
  \<^verbatim>\<open>safeGet\<close>. For an incoming \<^verbatim>\<open>__proto__\<close> member that holds an object or an array,
  \<^verbatim>\<open>baseMergeDeep\<close> therefore sees \<^verbatim>\<open>undefined\<close> on both sides: unless the customizer
  returns a value for that, nothing is stored, because \<^verbatim>\<open>"__proto__" in object\<close> is true.
\<close>

text \<open>
  \<^verbatim>\<open>isArrayLikeObject\<close>: an array, or an object whose \<^verbatim>\<open>length\<close> is a valid array length.
\<close>

fun isArrayLikeObject :: "json \<Rightarrow> bool" where
  "isArrayLikeObject (JArr _) = True"
| "isArrayLikeObject (JObj kvs) =
     (case obj_get kvs ''length'' of
        Some (JNum n) \<Rightarrow> 0 \<le> n \<and> n \<le> 9007199254740991
      | _ \<Rightarrow> False)"
| "isArrayLikeObject _ = False"

fun merge_value :: "customizer \<Rightarrow> json option \<Rightarrow> json \<Rightarrow> json"
and baseMerge :: "customizer \<Rightarrow> obj \<Rightarrow> obj \<Rightarrow> obj"
and merge_elems :: "customizer \<Rightarrow> json list \<Rightarrow> json list \<Rightarrow> json list" where
  "merge_value c ov (JArr ys) =
     (case c ov (Some (JArr ys)) of
        Some nv \<Rightarrow> nv
      | None \<Rightarrow>
          JArr (merge_elems c
                  (case ov of
                     Some (JArr xs) \<Rightarrow> xs
                   | Some (JObj okvs) \<Rightarrow> if isArrayLikeObject (JObj okvs) then undefined else []
                   | _ \<Rightarrow> [])
                  ys))"
| "merge_value c ov (JObj skvs) =
     (case c ov (Some (JObj skvs)) of
        Some nv \<Rightarrow> nv
      | None \<Rightarrow>
         (case ov of
            Some (JObj okvs) \<Rightarrow> JObj (baseMerge c okvs skvs)
          | Some (JArr xs) \<Rightarrow> undefined
          | _ \<Rightarrow> JObj (baseMerge c [] skvs)))"
| "merge_value c ov sv = (case c ov (Some sv) of Some nv \<Rightarrow> nv | None \<Rightarrow> sv)"
| "baseMerge c okvs [] = okvs"
| "baseMerge c okvs ((k, sv) # rest) =
     baseMerge c
       (if k = ''__proto__'' \<and> isObject sv
        then (case c None None of None \<Rightarrow> okvs | Some nv \<Rightarrow> obj_set okvs k nv)
        else obj_set okvs k (merge_value c (safeGet okvs k) sv))
       rest"
| "merge_elems c xs [] = xs"
| "merge_elems c [] (y # ys) = merge_value c None y # merge_elems c [] ys"
| "merge_elems c (x # xs) (y # ys) = merge_value c (Some x) y # merge_elems c xs ys"

definition mergeWith :: "obj \<Rightarrow> obj \<Rightarrow> customizer \<Rightarrow> obj" where
  "mergeWith object source customizer = baseMerge customizer object source"

text \<open>
  \<^verbatim>\<open>assign(object, source)\<close>: every own property of the source is stored on the object
  (\<^verbatim>\<open>baseAssignValue\<close>, which uses \<^verbatim>\<open>defineProperty\<close> for \<^verbatim>\<open>__proto__\<close>).
\<close>

fun assign :: "obj \<Rightarrow> obj \<Rightarrow> obj" where
  "assign object [] = object"
| "assign object ((k, v) # rest) = assign (obj_set object k v) rest"

section \<open>The customizers of generator.js\<close>

fun concatArrays :: customizer where
  "concatArrays (Some (JArr xs)) (Some (JArr ys)) = Some (JArr (xs @ ys))"
| "concatArrays _ _ = None"

fun appendScripts :: customizer where
  "appendScripts (Some (JStr e)) (Some (JStr n)) = Some (JStr (e @ '' && '' @ n))"
| "appendScripts _ _ = None"

fun prependScripts :: customizer where
  "prependScripts (Some (JStr e)) (Some (JStr n)) = Some (JStr (n @ '' && '' @ e))"
| "prependScripts _ _ = None"

section \<open>Option values, descriptors and the generator\<close>

text \<open>
  The values an option holds: \<^verbatim>\<open>undefined\<close> while it is missing, a boolean for a
  \<^verbatim>\<open>confirm\<close> option and a string for an \<^verbatim>\<open>input\<close> option.
\<close>

datatype optval = Undefined | Bool bool | Str string

text \<open>What a \<^verbatim>\<open>validate\<close> or \<^verbatim>\<open>allowed\<close> function returns or resolves with.\<close>

datatype js_result = RUndefined | RNull | RBool bool | RNum int | RStr string | RObject

fun truthy :: "js_result \<Rightarrow> bool" where
  "truthy RUndefined = False"
| "truthy RNull = False"
| "truthy (RBool b) = b"
| "truthy (RNum n) = (n \<noteq> 0)"
| "truthy (RStr s) = (s \<noteq> [])"
| "truthy RObject = True"

fun isString :: "js_result \<Rightarrow> bool" where
  "isString (RStr s) = True"
| "isString _ = False"

text \<open>The string a template literal puts in place of \<^verbatim>\<open>${input}\<close>.\<close>

fun toString :: "optval \<Rightarrow> string" where
  "toString Undefined = ''undefined''"
| "toString (Bool True) = ''true''"
| "toString (Bool False) = ''false''"
| "toString (Str s) = s"

datatype default_spec = Value optval | Supplier "unit \<Rightarrow> optval"

text \<open>
  The configuration object of \<^verbatim>\<open>Generator#optionPrompt\<close>. A \<^verbatim>\<open>validate\<close> or
  \<^verbatim>\<open>allowed\<close> entry is \<open>Some f\<close> exactly when \<^verbatim>\<open>isFunction\<close> holds of it.
\<close>

record config =
  name :: string
  type :: string
  alias' :: "string option"
  description :: "string option"
  message :: "string option"
  default :: default_spec
  validate :: "(optval \<Rightarrow> js_result) option"
  allowed :: "((string \<Rightarrow> optval) \<Rightarrow> js_result) option"
  whenProhibited :: optval

record question =
  q_default :: "unit \<Rightarrow> optval"
  q_when :: "unit \<Rightarrow> bool"
  q_message :: "string option"
  q_name :: string
  q_type :: string
  q_validate :: "(optval \<Rightarrow> js_result) option"

datatype optionCtor = BooleanCtor | StringCtor | Inherited string

record optionConfig_t =
  oc_type :: optionCtor
  oc_description :: "string option"
  oc_alias :: "string option"

text \<open>What the run shows: the prompts put to the user and the validator calls.\<close>

datatype event = Prompted string | Validated string optval

record json_file =
  contents :: obj
  space :: string

datatype error = TypeError | Error string

text \<open>
  The state of a generator: the options bag, the registered option prompts, the options
  registered with the host, the host's file system and destination root, the person
  answering the prompts, the trace of the run, whether an error listener (one that
  returns) is registered on the host's environment, and the messages handed to
  \<^verbatim>\<open>env.error\<close>.
\<close>

record generator =
  options :: "string \<Rightarrow> optval"
  optionPrompts :: "config list"
  hostOptions :: "(string \<times> optionConfig_t) list"
  fs :: "string \<rightharpoonup> json_file"
  destinationPath :: "string \<Rightarrow> string"
  user :: "question \<Rightarrow> optval"
  events :: "event list"
  errorListener :: bool
  reported :: "string list"

section \<open>The host: file system, prompt, error channel\<close>

text \<open>
  \<^verbatim>\<open>env.error(message)\<close>: the error is thrown (\<open>Inl\<close>, with the state the run stopped in)
  when no error listener is registered; otherwise the listener gets it, and the call
  returns after the listener.
\<close>

definition env_error :: "string \<Rightarrow> generator \<Rightarrow> (error \<times> generator) + generator" where
  "env_error m g =
     (let g' = g\<lparr>reported := reported g @ [m]\<rparr>
      in if errorListener g then Inr g' else Inl (Error m, g'))"

definition tab :: string where
  "tab = [CHR 0x09]"

definition readJSON :: "(string \<rightharpoonup> json_file) \<Rightarrow> string \<Rightarrow> obj \<Rightarrow> obj" where
  "readJSON files filePath defaults =
     (case files filePath of None \<Rightarrow> defaults | Some f \<Rightarrow> contents f)"

definition writeJSON ::
  "(string \<rightharpoonup> json_file) \<Rightarrow> string \<Rightarrow> obj \<Rightarrow> string \<Rightarrow> (string \<rightharpoonup> json_file)" where
  "writeJSON files filePath object indent =
     files(filePath \<mapsto> \<lparr>contents = object, space = indent\<rparr>)"

text \<open>
  \<^verbatim>\<open>generator.prompt(questions)\<close>: a question whose \<^verbatim>\<open>when\<close> is false is not shown and
  has no answer; the others are shown in order and answered by the user.
\<close>

fun host_prompt :: "question list \<Rightarrow> generator \<Rightarrow> (string \<times> optval) list \<times> generator" where
  "host_prompt [] g = ([], g)"
| "host_prompt (q # qs) g =
     (if q_when q ()
      then (let (answers, g') = host_prompt qs (g\<lparr>events := events g @ [Prompted (q_name q)]\<rparr>)
            in ((q_name q, user g q) # answers, g'))
      else host_prompt qs g)"

fun assign_options :: "(string \<Rightarrow> optval) \<Rightarrow> (string \<times> optval) list \<Rightarrow> (string \<Rightarrow> optval)" where
  "assign_options opts [] = opts"
| "assign_options opts ((k, v) # rest) = assign_options (opts(k := v)) rest"

section \<open>prompt-type-map.js\<close>

text \<open>
  The module exports the object literal \<^verbatim>\<open>{confirm: Boolean, input: String}\<close>;
  \<open>typeMap t\<close> is \<^verbatim>\<open>typeMap[t]\<close>, \<open>None\<close> for \<^verbatim>\<open>undefined\<close>. An object literal inherits
  the members of \<^verbatim>\<open>Object.prototype\<close>, and a property read finds them.
\<close>

definition objectPrototypeNames :: "string list" where
  "objectPrototypeNames =
     [''constructor'', ''hasOwnProperty'', ''isPrototypeOf'', ''propertyIsEnumerable'',
      ''toLocaleString'', ''toString'', ''valueOf'', ''__proto__'',
      ''__defineGetter__'', ''__defineSetter__'', ''__lookupGetter__'', ''__lookupSetter__'']"

definition typeMap :: "string \<Rightarrow> optionCtor option" where
  "typeMap t =
     (if t = ''confirm'' then Some BooleanCtor
      else if t = ''input'' then Some StringCtor
      else if t \<in> set objectPrototypeNames then Some (Inherited t)
      else None)"

section \<open>option-prompt.js\<close>

definition isAllowed :: "config \<Rightarrow> generator \<Rightarrow> bool" where
  "isAllowed cfg g =
     (case allowed cfg of None \<Rightarrow> True | Some f \<Rightarrow> truthy (f (options g)))"

definition isMissing :: "config \<Rightarrow> generator \<Rightarrow> bool" where
  "isMissing cfg g = (options g (name cfg) = Undefined)"

definition optionType :: "config \<Rightarrow> error + optionCtor" where
  "optionType cfg =
     (case typeMap (type cfg) of
        None \<Rightarrow> Inl (Error (''Unsupported prompt type '' @ [CHR 0x27] @ type cfg @ [CHR 0x27]))
      | Some t \<Rightarrow> Inr t)"

definition optionConfig :: "config \<Rightarrow> error + optionConfig_t" where
  "optionConfig cfg =
     (case optionType cfg of
        Inl e \<Rightarrow> Inl e
      | Inr t \<Rightarrow> Inr \<lparr>oc_type = t, oc_description = description cfg, oc_alias = alias' cfg\<rparr>)"

definition question :: "config \<Rightarrow> generator \<Rightarrow> question" where
  "question cfg g =
     \<lparr>q_default = (\<lambda>_. case default cfg of Supplier def \<Rightarrow> def () | Value def \<Rightarrow> def),
      q_when = (\<lambda>_. options g (name cfg) = Undefined),
      q_message = message cfg,
      q_name = name cfg,
      q_type = type cfg,
      q_validate = validate cfg\<rparr>"

definition OptionPrompt_prompt :: "config \<Rightarrow> generator \<Rightarrow> generator" where
  "OptionPrompt_prompt cfg g =
     (if isAllowed cfg g
      then (let (answers, g') = host_prompt [question cfg g] g
            in g'\<lparr>options := assign_options (options g') answers\<rparr>)
      else g\<lparr>options := (options g)(name cfg := whenProhibited cfg)\<rparr>)"

text \<open>
  \<^verbatim>\<open>validate\<close> calls \<^verbatim>\<open>env.error(result)\<close> as its last statement: it returns when that
  call returns.
\<close>

definition OptionPrompt_validate :: "config \<Rightarrow> generator \<Rightarrow> (error \<times> generator) + generator" where
  "OptionPrompt_validate cfg g =
     (case validate cfg of
        None \<Rightarrow> Inr g
      | Some validator \<Rightarrow>
          (let input = options g (name cfg);
               g' = g\<lparr>events := events g @ [Validated (name cfg) input]\<rparr>;
               result = validator input;
               result = (if \<not> truthy result
                         then RStr (''Invalid '' @ name cfg @ '' option '' @ [CHR 0x27]
                                    @ toString input @ [CHR 0x27])
                         else result)
           in (case result of RStr m \<Rightarrow> env_error m g' | _ \<Rightarrow> Inr g')))"

definition OptionPrompt_resolve :: "config \<Rightarrow> generator \<Rightarrow> (error \<times> generator) + generator" where
  "OptionPrompt_resolve cfg g = OptionPrompt_validate cfg (OptionPrompt_prompt cfg g)"

section \<open>generator.js\<close>

definition optionPrompt :: "config \<Rightarrow> generator \<Rightarrow> error + generator" where
  "optionPrompt cfg g =
     (case optionConfig cfg of
        Inl e \<Rightarrow> Inl e
      | Inr oc \<Rightarrow> Inr (g\<lparr>hostOptions := hostOptions g @ [(name cfg, oc)],
                          optionPrompts := optionPrompts g @ [cfg]\<rparr>))"

fun resolve_all :: "config list \<Rightarrow> generator \<Rightarrow> (error \<times> generator) + generator" where
  "resolve_all [] g = Inr g"
| "resolve_all (cfg # cfgs) g =
     (case OptionPrompt_resolve cfg g of
        Inl e \<Rightarrow> Inl e
      | Inr g' \<Rightarrow> resolve_all cfgs g')"

definition prompting :: "generator \<Rightarrow> (error \<times> generator) + generator" where
  "prompting g = resolve_all (optionPrompts g) g"

text \<open>An omitted \<^verbatim>\<open>customizer\<close> or \<^verbatim>\<open>prepend\<close> argument is \<open>None\<close> and takes its default.\<close>

definition extendJson :: "string \<Rightarrow> obj \<Rightarrow> customizer option \<Rightarrow> generator \<Rightarrow> generator" where
  "extendJson dest newContents customizer g =
     (let customizer = (case customizer of None \<Rightarrow> concatArrays | Some c \<Rightarrow> c);
          filePath = destinationPath g dest;
          object = readJSON (fs g) filePath [];
          object = mergeWith object newContents customizer
      in g\<lparr>fs := writeJSON (fs g) filePath object tab\<rparr>)"

definition extendTsConfig :: "obj \<Rightarrow> customizer option \<Rightarrow> generator \<Rightarrow> generator" where
  "extendTsConfig newContents customizer g =
     extendJson ''tsconfig.json'' newContents
       (Some (case customizer of None \<Rightarrow> concatArrays | Some c \<Rightarrow> c)) g"

definition extendPackage :: "obj \<Rightarrow> customizer option \<Rightarrow> generator \<Rightarrow> generator" where
  "extendPackage newContents customizer g =
     extendJson ''package.json'' newContents
       (Some (case customizer of None \<Rightarrow> concatArrays | Some c \<Rightarrow> c)) g"

text \<open>\<^verbatim>\<open>addScripts\<close> of \<^verbatim>\<open>src/lib/generator.js\<close>.\<close>

definition addScripts :: "obj \<Rightarrow> bool option \<Rightarrow> generator \<Rightarrow> generator" where
  "addScripts scripts prepend g =
     (let prepend = (case prepend of None \<Rightarrow> False | Some b \<Rightarrow> b)
      in extendPackage [(''scripts'', JObj scripts)]
           (Some (if prepend then prependScripts else appendScripts)) g)"

text \<open>
  \<^verbatim>\<open>addScripts\<close> of the second copy of the class (stored with \<^verbatim>\<open>option-prompt.js\<close>):
  the two branches of the conditional are the other way round.
\<close>

definition addScripts_copy :: "obj \<Rightarrow> bool option \<Rightarrow> generator \<Rightarrow> generator" where
  "addScripts_copy scripts prepend g =
     (let prepend = (case prepend of None \<Rightarrow> False | Some b \<Rightarrow> b)
      in extendPackage [(''scripts'', JObj scripts)]
           (Some (if prepend then appendScripts else prependScripts)) g)"

text \<open>
  The loop of \<^verbatim>\<open>sortScripts\<close>. \<^verbatim>\<open>name in scripts\<close> holds for a name that \<^verbatim>\<open>scripts\<close> has
  as an own property and for a name it inherits from \<^verbatim>\<open>Object.prototype\<close>.
  \<^item> An own property: its value is assigned to \<^verbatim>\<open>sorted[name]\<close>, and the name is deleted
    from \<^verbatim>\<open>scripts\<close>.
  \<^item> An inherited name that is not an own property: \<^verbatim>\<open>sorted[name]\<close> gets the inherited
    function, and \<^verbatim>\<open>delete\<close> does nothing. The member is not written, so it is removed
    from \<^verbatim>\<open>sorted\<close>. For \<^verbatim>\<open>__proto__\<close> the assignment gives \<^verbatim>\<open>sorted\<close> the prototype it
    has already.
  \<^item> Any other name is skipped.
\<close>

fun sortLoop :: "string list \<Rightarrow> obj \<Rightarrow> obj \<Rightarrow> obj \<times> obj" where
  "sortLoop [] sorted' scripts = (sorted', scripts)"
| "sortLoop (n # names) sorted' scripts =
     (case obj_get scripts n of
        Some v \<Rightarrow> sortLoop names (obj_assign sorted' n v) (obj_delete scripts n)
      | None \<Rightarrow>
          if n \<in> set objectPrototypeNames \<and> n \<noteq> ''__proto__''
          then sortLoop names (obj_delete sorted' n) scripts
          else sortLoop names sorted' scripts)"

text \<open>
  \<^verbatim>\<open>name in scripts\<close> throws a \<^verbatim>\<open>TypeError\<close> when \<^verbatim>\<open>scripts\<close> is \<^verbatim>\<open>undefined\<close>;
  with no name to look for, \<^verbatim>\<open>assign(sorted, undefined)\<close> is the empty \<^verbatim>\<open>sorted\<close>.
\<close>

definition sortScripts :: "string list \<Rightarrow> generator \<Rightarrow> error + generator" where
  "sortScripts names g =
     (let pkgPath = destinationPath g ''package.json'';
          pkg = readJSON (fs g) pkgPath []
      in (case obj_get pkg ''scripts'' of
            None \<Rightarrow>
              (if names = [] then
                 Inr (g\<lparr>fs := writeJSON (fs g) pkgPath (obj_assign pkg ''scripts'' (JObj [])) tab\<rparr>)
               else Inl TypeError)
          | Some (JObj scripts) \<Rightarrow>
              (let (sorted', scripts) = sortLoop names [] scripts;
                   pkg = obj_assign pkg ''scripts'' (JObj (assign sorted' scripts))
               in Inr (g\<lparr>fs := writeJSON (fs g) pkgPath pkg tab\<rparr>))
          | Some _ \<Rightarrow> undefined))"

section \<open>Observations of a run, and example states\<close>

text \<open>The value at a path of member names, read through objects only.\<close>

fun get_path :: "json \<Rightarrow> string list \<Rightarrow> json option" where
  "get_path v [] = Some v"
| "get_path (JObj kvs) (k # ks) =
     (case obj_get kvs k of None \<Rightarrow> None | Some v \<Rightarrow> get_path v ks)"
| "get_path _ (k # ks) = None"

definition packageJson :: "generator \<Rightarrow> obj" where
  "packageJson g = readJSON (fs g) (destinationPath g ''package.json'') []"

definition final_state :: "(error \<times> generator) + generator \<Rightarrow> generator" where
  "final_state r = (case r of Inl (e, g) \<Rightarrow> g | Inr g \<Rightarrow> g)"

definition error_message :: "(error \<times> generator) + generator \<Rightarrow> string option" where
  "error_message r = (case r of Inl (Error m, g) \<Rightarrow> Some m | _ \<Rightarrow> None)"

definition run_ended :: "(error \<times> generator) + generator \<Rightarrow> bool" where
  "run_ended r = (case r of Inl e \<Rightarrow> True | Inr g \<Rightarrow> False)"

definition example_generator :: generator where
  "example_generator =
     \<lparr>options = (\<lambda>_. Undefined), optionPrompts = [], hostOptions = [], fs = Map.empty,
      destinationPath = (\<lambda>p. ''/project/'' @ p), user = (\<lambda>q. q_default q ()), events = [],
      errorListener = False, reported = []\<rparr>"

definition example_validator :: "optval \<Rightarrow> js_result" where
  "example_validator v =
     (if v = Str ''MIT'' then RBool True
      else if v = Str ''GPL'' then RStr ''GPL is not supported''
      else if v = Str ''none'' then RStr []
      else RBool False)"

definition example_allowed :: "(string \<Rightarrow> optval) \<Rightarrow> js_result" where
  "example_allowed opts = RBool (opts ''private'' \<noteq> Bool True)"

definition example_config :: config where
  "example_config =
     \<lparr>name = ''license'', type = ''input'', alias' = Some ''l'', description = None,
      message = Some ''Which license?'', default = Value (Str ''MIT''),
      validate = Some example_validator, allowed = Some example_allowed,
      whenProhibited = Str ''UNLICENSED''\<rparr>"

text \<open>The options bag after the command line set \<^verbatim>\<open>--license\<close> and \<^verbatim>\<open>--private\<close>.\<close>

definition example_cli :: "optval \<Rightarrow> optval \<Rightarrow> generator" where
  "example_cli license private =
     example_generator\<lparr>options := (\<lambda>_. Undefined)(''license'' := license, ''private'' := private)\<rparr>"

definition example_file :: "string \<Rightarrow> obj \<Rightarrow> generator" where
  "example_file dest object =
     example_generator\<lparr>fs := [''/project/'' @ dest \<mapsto> \<lparr>contents = object, space = ''  ''\<rparr>]\<rparr>"

definition example_package :: "obj \<Rightarrow> generator" where
  "example_package pkg = example_file ''package.json'' pkg"

text \<open>A customizer of a caller's: it answers \<^verbatim>\<open>null\<close> for every member.\<close>

definition example_customizer :: customizer where
  "example_customizer objValue srcValue = Some JNull"

section \<open>The contract of sortScripts, in the words of the specification\<close>

text \<open>
  The names of the list in list order, each once (a name that is listed twice counts where
  it stands first).
\<close>

fun first_occurrences :: "string list \<Rightarrow> string list" where
  "first_occurrences [] = []"
| "first_occurrences (x # xs) = x # filter (\<lambda>y. y \<noteq> x) (first_occurrences xs)"

text \<open>
  The named scripts first, in the given order and skipping the names that are not present,
  then all remaining scripts in their original relative order.
\<close>

definition listed_scripts :: "string list \<Rightarrow> obj \<Rightarrow> obj" where
  "listed_scripts names scripts =
     concat (map (\<lambda>n. case obj_get scripts n of Some v \<Rightarrow> [(n, v)] | None \<Rightarrow> [])
                 (first_occurrences names))"

definition sorted_scripts_spec :: "string list \<Rightarrow> obj \<Rightarrow> obj" where
  "sorted_scripts_spec names scripts =
     listed_scripts names scripts @ filter (\<lambda>kv. fst kv \<notin> set names) scripts"

section \<open>Option prompts: resolution and validation\<close>


lemma validate_unfold:
  "validate cfg = Some v \<Longrightarrow>
   OptionPrompt_validate cfg g =
     (let input = options g (name cfg);
          g' = g\<lparr>events := events g @ [Validated (name cfg) input]\<rparr>
      in if \<not> truthy (v input)
         then env_error (''Invalid '' @ name cfg @ '' option '' @ [CHR 0x27]
                          @ toString input @ [CHR 0x27]) g'
         else (case v input of RStr m \<Rightarrow> env_error m g' | _ \<Rightarrow> Inr g'))"
  by (simp add: OptionPrompt_validate_def Let_def)



lemma example_config_simps:
  "name example_config = ''license''"
  "validate example_config = Some example_validator"
  "allowed example_config = Some example_allowed"
  "whenProhibited example_config = Str ''UNLICENSED''"
  "default example_config = Value (Str ''MIT'')"
  by (simp_all add: example_config_def)

lemma example_cli_simps:
  "options (example_cli l p) ''license'' = l"
  "options (example_cli l p) ''private'' = p"
  "events (example_cli l p) = []"
  "reported (example_cli l p) = []"
  "errorListener (example_cli l p) = False"
  by (simp_all add: example_cli_def example_generator_def)

text \<open>
  Claim C2, as amended. For an option with a validator, \<^verbatim>\<open>resolve\<close> calls the validator
  after \<^verbatim>\<open>prompt\<close>, with the value the option then has. For a non-empty string
  result \<^verbatim>\<open>env.error\<close> is called with exactly that string; for a falsy result (\<^verbatim>\<open>false\<close>,
  \<^verbatim>\<open>undefined\<close>, \<^verbatim>\<open>null\<close>, \<^verbatim>\<open>0\<close> and also the empty string) it is called with
  \<^verbatim>\<open>Invalid <name> option '<value>'\<close>; for a truthy result that is not a string it is not
  called and the run continues. The call of \<^verbatim>\<open>env.error\<close> ends the run with that message
  when the host's \<^verbatim>\<open>env.error\<close> throws, as it does with no error listener registered;
  when it returns, \<^verbatim>\<open>resolve\<close> returns too and the run goes on.
\<close>

theorem validate_decides_outcome:
  assumes "validate cfg = Some v"
  shows "(let g1 = OptionPrompt_prompt cfg g;
              input = options g1 (name cfg);
              g2 = g1\<lparr>events := events g1 @ [Validated (name cfg) input]\<rparr>;
              r = OptionPrompt_resolve cfg g;
              invalid = ''Invalid '' @ name cfg @ '' option '' @ [CHR 0x27]
                        @ toString input @ [CHR 0x27];
              report = (\<lambda>m. if errorListener g1
                             then Inr (g2\<lparr>reported := reported g1 @ [m]\<rparr>)
                             else Inl (Error m, g2\<lparr>reported := reported g1 @ [m]\<rparr>))
          in events (final_state r) = events g1 @ [Validated (name cfg) input]
           \<and> options (final_state r) = options g1
           \<and> (\<forall>m. v input = RStr m \<and> m \<noteq> [] \<longrightarrow>
                 r = report m \<and> reported (final_state r) = reported g1 @ [m]
                 \<and> run_ended r = (\<not> errorListener g1)
                 \<and> error_message r = (if errorListener g1 then None else Some m))
           \<and> (\<not> truthy (v input) \<longrightarrow>
                 r = report invalid \<and> reported (final_state r) = reported g1 @ [invalid]
                 \<and> run_ended r = (\<not> errorListener g1)
                 \<and> error_message r = (if errorListener g1 then None else Some invalid))
           \<and> (truthy (v input) \<and> \<not> isString (v input) \<longrightarrow> r = Inr g2))"
  using assms
  by (cases "v (options (OptionPrompt_prompt cfg g) (name cfg))")
     (auto simp: OptionPrompt_resolve_def validate_unfold Let_def final_state_def
        error_message_def run_ended_def env_error_def)

text \<open>
  Witness: \<^verbatim>\<open>--license GPL\<close> is rejected with the validator's own message; no error
  listener is registered, so the run ends.
\<close>

theorem validate_decides_outcome_witness:
  "validate example_config = Some example_validator
   \<and> error_message (OptionPrompt_resolve example_config (example_cli (Str ''GPL'') Undefined))
       = Some ''GPL is not supported''
   \<and> run_ended (OptionPrompt_resolve example_config (example_cli (Str ''GPL'') Undefined))
   \<and> reported (final_state
        (OptionPrompt_resolve example_config (example_cli (Str ''GPL'') Undefined)))
       = [''GPL is not supported'']
   \<and> events (final_state (OptionPrompt_resolve example_config (example_cli (Str ''GPL'') Undefined)))
       = [Validated ''license'' (Str ''GPL'')]"
proof -
  have v: "validate example_config = Some example_validator"
    by (simp add: example_config_simps)
  have p: "OptionPrompt_prompt example_config (example_cli (Str ''GPL'') Undefined)
             = example_cli (Str ''GPL'') Undefined"
    by (simp add: OptionPrompt_prompt_def isAllowed_def question_def example_config_simps
          example_cli_simps example_allowed_def)
  show ?thesis
    using validate_decides_outcome [OF v, of "example_cli (Str ''GPL'') Undefined"] v
    by (simp add: p Let_def example_config_simps example_cli_simps example_validator_def
          error_message_def run_ended_def final_state_def)
qed

text \<open>
  Counterexamples to C2 as stated. A string result does not always end the run with
  exactly that string: the validator returns the empty string for \<^verbatim>\<open>--license none\<close>, and
  the run ends with the generated message. And a rejected value does not always end the
  run: with an error listener registered on the host, \<^verbatim>\<open>env.error\<close> returns, and
  \<^verbatim>\<open>resolve\<close> returns normally after the validator's message for \<^verbatim>\<open>--license GPL\<close> was
  reported.
\<close>

theorem validator_result_counterexample:
  "example_validator (Str ''none'') = RStr []
   \<and> error_message (OptionPrompt_resolve example_config (example_cli (Str ''none'') Undefined))
       = Some (''Invalid license option '' @ [CHR 0x27] @ ''none'' @ [CHR 0x27])
   \<and> error_message (OptionPrompt_resolve example_config (example_cli (Str ''none'') Undefined))
       \<noteq> Some []
   \<and> example_validator (Str ''GPL'') = RStr ''GPL is not supported''
   \<and> \<not> run_ended (OptionPrompt_resolve example_config
                      ((example_cli (Str ''GPL'') Undefined)\<lparr>errorListener := True\<rparr>))
   \<and> reported (final_state (OptionPrompt_resolve example_config
                      ((example_cli (Str ''GPL'') Undefined)\<lparr>errorListener := True\<rparr>)))
       = [''GPL is not supported'']"
  by (simp add: OptionPrompt_resolve_def OptionPrompt_validate_def OptionPrompt_prompt_def
        isAllowed_def question_def error_message_def run_ended_def final_state_def
        env_error_def Let_def example_config_simps example_cli_simps example_validator_def
        example_allowed_def)



text \<open>
  Claim C4. When the option is allowed (\<^verbatim>\<open>allowed\<close> is not a function, or returns a truthy
  value) and the options bag already holds a value for it, \<^verbatim>\<open>prompt\<close> changes nothing:
  the question's \<^verbatim>\<open>when\<close> is false, so no prompt is shown, and the empty answers leave the
  options as they were.
\<close>

theorem present_option_is_not_prompted:
  assumes "isAllowed cfg g" and "options g (name cfg) \<noteq> Undefined"
  shows "OptionPrompt_prompt cfg g = g"
  using assms by (simp add: OptionPrompt_prompt_def question_def)

theorem present_option_is_not_prompted_witness:
  "isAllowed example_config (example_cli (Str ''GPL'') Undefined)
   \<and> options (example_cli (Str ''GPL'') Undefined) (name example_config) \<noteq> Undefined
   \<and> OptionPrompt_prompt example_config (example_cli (Str ''GPL'') Undefined)
       = example_cli (Str ''GPL'') Undefined"
proof -
  have a: "isAllowed example_config (example_cli (Str ''GPL'') Undefined)"
    by (simp add: isAllowed_def example_config_simps example_cli_simps example_allowed_def)
  have b: "options (example_cli (Str ''GPL'') Undefined) (name example_config) \<noteq> Undefined"
    by (simp add: example_config_simps example_cli_simps)
  show ?thesis
    using present_option_is_not_prompted [OF a b] a b by simp
qed




section \<open>The prompt type map\<close>

lemma optionType_cases:
  "optionType cfg =
     (if type cfg = ''confirm'' then Inr BooleanCtor
      else if type cfg = ''input'' then Inr StringCtor
      else if type cfg \<in> set objectPrototypeNames then Inr (Inherited (type cfg))
      else Inl (Error (''Unsupported prompt type '' @ [CHR 0x27] @ type cfg @ [CHR 0x27])))"
  by (simp add: optionType_def typeMap_def)

text \<open>
  Claim C7 fails on the code. \<^verbatim>\<open>typeMap[type]\<close> is an ordinary property read, so for a
  type that names a member of \<^verbatim>\<open>Object.prototype\<close> it yields that member, which is truthy,
  and \<^verbatim>\<open>optionType\<close> returns it instead of throwing. Evaluated at the type
  \<^verbatim>\<open>constructor\<close>; for \<^verbatim>\<open>confirm\<close>, \<^verbatim>\<open>input\<close> and every name that is not inherited
  the code does what the claim says (\<open>optionType_cases\<close>).
\<close>

theorem optionType_constructor_does_not_throw:
  "optionType (example_config\<lparr>type := ''constructor''\<rparr>) = Inr (Inherited ''constructor'')
   \<and> optionType (example_config\<lparr>type := ''confirm''\<rparr>) = Inr BooleanCtor
   \<and> optionType (example_config\<lparr>type := ''input''\<rparr>) = Inr StringCtor
   \<and> optionType (example_config\<lparr>type := ''list''\<rparr>)
       = Inl (Error (''Unsupported prompt type '' @ [CHR 0x27] @ ''list'' @ [CHR 0x27]))"
  by (simp add: optionType_cases objectPrototypeNames_def)

section \<open>JavaScript objects: lookup, insertion, order\<close>

lemma obj_get_simps:
  "obj_get [] k = None"
  "obj_get ((k0, v0) # kvs) k = (if k = k0 then Some v0 else obj_get kvs k)"
  by (simp_all add: obj_get_def)

lemma obj_get_None_iff: "obj_get kvs k = None \<longleftrightarrow> k \<notin> fst ` set kvs"
  by (simp add: obj_get_def map_of_eq_None_iff)

lemma obj_get_in_set: "obj_get kvs k = Some v \<Longrightarrow> (k, v) \<in> set kvs"
  by (simp add: obj_get_def map_of_SomeD)

lemma map_of_map_upd:
  "map_of (map (\<lambda>kv. if fst kv = k then (k, v) else kv) kvs) k' =
     (if k' = k then (if k \<in> set (map fst kvs) then Some v else None) else map_of kvs k')"
  by (induction kvs) (auto simp: rev_image_eqI)

lemma map_of_obj_insert:
  "k \<notin> set (map fst kvs) \<Longrightarrow>
   map_of (obj_insert kvs k v) k' = (if k' = k then Some v else map_of kvs k')"
  by (induction kvs) auto

lemma obj_get_obj_set:
  "obj_get (obj_set kvs k v) k' = (if k' = k then Some v else obj_get kvs k')"
  by (simp add: obj_get_def obj_set_def obj_has_def map_of_map_upd map_of_obj_insert)

lemma obj_get_obj_delete:
  "obj_get (obj_delete kvs n) k = (if k = n then None else obj_get kvs k)"
  by (induction kvs) (auto simp: obj_delete_def obj_get_def)

lemma obj_get_filter_keys:
  "obj_get (filter (\<lambda>kv. P (fst kv)) kvs) k = (if P k then obj_get kvs k else None)"
  by (induction kvs) (auto simp: obj_get_def)

lemma obj_get_append:
  "obj_get (xs @ ys) k = (case obj_get xs k of None \<Rightarrow> obj_get ys k | Some v \<Rightarrow> Some v)"
  by (induction xs) (auto simp: obj_get_def)

lemma obj_insert_append:
  "(\<And>k'. k' \<in> fst ` set kvs \<Longrightarrow> \<not> key_before k k') \<Longrightarrow> obj_insert kvs k v = kvs @ [(k, v)]"
  by (induction kvs) auto

lemma not_key_before:
  "(isArrayIndex k \<Longrightarrow> isArrayIndex k' \<and> indexValue k' < indexValue k) \<Longrightarrow> \<not> key_before k k'"
  unfolding key_before_def by (cases "isArrayIndex k") simp_all

lemma js_ordered_tl: "js_ordered (k # ks) \<Longrightarrow> js_ordered ks"
  by (cases ks) auto

lemma js_ordered_prefix: "js_ordered (xs @ ys) \<Longrightarrow> js_ordered xs"
proof (induction xs rule: js_ordered.induct)
  case 1
  then show ?case by simp
next
  case (2 k)
  then show ?case by simp
next
  case (3 k k' ks)
  then show ?case by simp
qed

lemma js_ordered_last:
  "js_ordered (ks @ [k]) \<Longrightarrow> isArrayIndex k \<Longrightarrow> k' \<in> set ks \<Longrightarrow>
   isArrayIndex k' \<and> indexValue k' < indexValue k"
proof (induction ks arbitrary: k')
  case Nil
  then show ?case by simp
next
  case (Cons a ks)
  have p1: "js_ordered (a # ks @ [k])" using Cons.prems(1) by simp
  have p2: "isArrayIndex k" by (rule Cons.prems(2))
  have p3: "k' = a \<or> k' \<in> set ks" using Cons.prems(3) by simp
  have ord: "js_ordered (ks @ [k])"
    using p1 by (rule js_ordered_tl)
  have ih: "\<And>x. x \<in> set ks \<Longrightarrow> isArrayIndex x \<and> indexValue x < indexValue k"
    using Cons.IH [OF ord p2] by blast
  have a: "isArrayIndex a \<and> indexValue a < indexValue k"
  proof (cases ks)
    case Nil
    then show ?thesis using p1 p2 by simp
  next
    case (Cons b rest)
    have b: "isArrayIndex b \<and> indexValue b < indexValue k"
      using ih [of b] Cons by simp
    have "isArrayIndex a \<and> indexValue a < indexValue b"
      using p1 Cons b by simp
    then show ?thesis using b by simp
  qed
  show ?case using p3 a ih by blast
qed

text \<open>A new name that belongs after every name of the object is appended.\<close>

lemma obj_set_append:
  assumes "k \<notin> fst ` set kvs" and "js_ordered (map fst kvs @ [k])"
  shows "obj_set kvs k v = kvs @ [(k, v)]"
proof -
  have "\<not> key_before k k'" if "k' \<in> fst ` set kvs" for k'
  proof (rule not_key_before)
    assume "isArrayIndex k"
    then show "isArrayIndex k' \<and> indexValue k' < indexValue k"
      using js_ordered_last [OF assms(2), of k'] that by simp
  qed
  then have "obj_insert kvs k v = kvs @ [(k, v)]"
    by (rule obj_insert_append)
  then show ?thesis
    using assms(1) by (simp add: obj_set_def obj_has_def)
qed

lemma obj_set_new_name:
  "k \<notin> fst ` set kvs \<Longrightarrow> \<not> isArrayIndex k \<Longrightarrow> obj_set kvs k v = kvs @ [(k, v)]"
proof -
  assume a: "k \<notin> fst ` set kvs" and b: "\<not> isArrayIndex k"
  have "obj_insert kvs k v = kvs @ [(k, v)]"
    using b by (intro obj_insert_append) (simp add: key_before_def)
  then show ?thesis using a by (simp add: obj_set_def obj_has_def)
qed

lemma wf_obj_member: "wf_obj kvs \<Longrightarrow> obj_get kvs k = Some v \<Longrightarrow> wf_json v"
  using obj_get_in_set [of kvs k v] by (fastforce simp: wf_obj_def)

lemma wf_obj_distinct: "wf_obj kvs \<Longrightarrow> distinct (map fst kvs)"
  by (simp add: wf_obj_def wf_keys_def)

lemma index_simps:
  "\<not> isArrayIndex ''a''" "\<not> isArrayIndex ''x''" "\<not> isArrayIndex ''y''"
  "\<not> isArrayIndex ''build''" "\<not> isArrayIndex ''lint''" "\<not> isArrayIndex ''test''"
  "\<not> isArrayIndex ''scripts''" "\<not> isArrayIndex ''name''" "\<not> isArrayIndex ''__proto__''"
  "\<not> isArrayIndex ''constructor''"
  "isArrayIndex ''1''" "indexValue ''1'' = 1"
  by (simp_all add: isArrayIndex_def isDigit_def indexValue_def)

section \<open>Merging\<close>

text \<open>Member by member: what \<^verbatim>\<open>baseMerge\<close> leaves under each name.\<close>

lemma safeGet_simps:
  "k \<noteq> ''__proto__'' \<Longrightarrow> safeGet kvs k = obj_get kvs k"
  "safeGet kvs ''__proto__'' = None"
  by (simp_all add: safeGet_def)

lemma proto_safe_member:
  "proto_safe (JObj kvs) \<Longrightarrow> obj_get kvs k = Some v \<Longrightarrow>
   proto_safe v \<and> (k = ''__proto__'' \<longrightarrow> \<not> isObject v)"
  using obj_get_in_set [of kvs k v] by (fastforce split: if_splits)

lemma baseMerge_get:
  "distinct (map fst src) \<Longrightarrow>
   obj_get (baseMerge c object src) k =
     (case obj_get src k of
        None \<Rightarrow> obj_get object k
      | Some sv \<Rightarrow>
          if k = ''__proto__'' \<and> isObject sv
          then (case c None None of None \<Rightarrow> obj_get object k | Some nv \<Rightarrow> Some nv)
          else Some (merge_value c (safeGet object k) sv))"
proof (induction src arbitrary: object)
  case Nil
  then show ?case by (simp add: obj_get_simps)
next
  case (Cons kv src)
  obtain k0 sv0 where kv: "kv = (k0, sv0)" by (cases kv)
  from Cons.prems kv have d: "distinct (map fst src)" and n: "k0 \<notin> fst ` set src" by auto
  have none: "obj_get src k0 = None"
    using n by (simp add: obj_get_None_iff)
  show ?case
  proof (cases "obj_get src k")
    case None
    then show ?thesis
      using Cons.IH [OF d] none kv
      by (cases "c None None") (simp_all add: obj_get_obj_set obj_get_simps safeGet_def)
  next
    case (Some sv)
    then have "k \<noteq> k0" using none by auto
    then show ?thesis
      using Cons.IH [OF d] Some kv
      by (cases "c None None") (simp_all add: obj_get_obj_set obj_get_simps safeGet_def)
  qed
qed

text \<open>
  Merged into nothing, a value is copied: when the customizer declines every undefined
  existing value, merging into \<^verbatim>\<open>undefined\<close>, into a fresh \<^verbatim>\<open>{}\<close> or \<^verbatim>\<open>[]\<close> gives the
  incoming value back. The second statement is more general: the incoming members are
  appended to an object they continue in enumeration order.
\<close>

lemma merge_fresh:
  fixes c :: customizer
  shows "(\<forall>sv. c None sv = None) \<Longrightarrow> ov = None \<Longrightarrow> wf_json sv \<Longrightarrow> proto_safe sv \<Longrightarrow>
         merge_value c ov sv = sv"
    and "(\<forall>sv. c None sv = None) \<Longrightarrow> wf_keys (map fst okvs @ map fst skvs) \<Longrightarrow>
         (\<forall>kv \<in> set skvs. wf_json (snd kv)) \<Longrightarrow> proto_safe (JObj skvs) \<Longrightarrow>
         baseMerge c okvs skvs = okvs @ skvs"
    and "(\<forall>sv. c None sv = None) \<Longrightarrow> xs = [] \<Longrightarrow> (\<forall>y \<in> set ys. wf_json y) \<Longrightarrow>
         (\<forall>y \<in> set ys. proto_safe y) \<Longrightarrow> merge_elems c xs ys = ys"
proof (induction c ov sv and c okvs skvs and c xs ys rule: merge_value_baseMerge_merge_elems.induct)
  case (1 c ov ys)
  have n: "c None (Some (JArr ys)) = None" using "1.prems"(1) by simp
  have "merge_elems c [] ys = ys"
    using "1.IH" "1.prems" n by simp
  then show ?case using n "1.prems"(2) by simp
next
  case (2 c ov skvs)
  have n: "c None (Some (JObj skvs)) = None" using "2.prems"(1) by simp
  have p: "proto_safe (JObj skvs)" using "2.prems"(4) .
  have "baseMerge c [] skvs = [] @ skvs"
    using "2.IH"(1) "2.prems"(1,2,3) n p by simp
  then show ?case using n "2.prems"(2) by simp
next
  case "3_1"
  then show ?case by simp
next
  case "3_2"
  then show ?case by simp
next
  case "3_3"
  then show ?case by simp
next
  case "3_4"
  then show ?case by simp
next
  case (4 c okvs)
  then show ?case by simp
next
  case (5 c okvs k sv rest)
  have d: "k \<notin> fst ` set okvs"
    using "5.prems"(2) by (auto simp: wf_keys_def)
  have o: "js_ordered (map fst okvs @ [k])"
    using "5.prems"(2) js_ordered_prefix [of "map fst okvs @ [k]" "map fst rest"]
    by (simp add: wf_keys_def)
  have np: "\<not> (k = ''__proto__'' \<and> isObject sv)"
    using "5.prems"(4) by (auto split: if_splits)
  have ps: "proto_safe sv" and pr: "proto_safe (JObj rest)"
    using "5.prems"(4) by simp_all
  have g: "safeGet okvs k = None"
    using d by (simp add: safeGet_def obj_get_None_iff)
  have v: "merge_value c (safeGet okvs k) sv = sv"
    using "5.IH"(1) [OF np "5.prems"(1) g _ ps] "5.prems"(3) by simp
  have s: "obj_set okvs k sv = okvs @ [(k, sv)]"
    using d o by (rule obj_set_append)
  have w: "wf_keys (map fst (okvs @ [(k, sv)]) @ map fst rest)"
    using "5.prems"(2) by simp
  have r: "\<forall>kv \<in> set rest. wf_json (snd kv)"
    using "5.prems"(3) by simp
  have "baseMerge c (okvs @ [(k, sv)]) rest = (okvs @ [(k, sv)]) @ rest"
    using "5.IH"(2) [OF "5.prems"(1) _ r pr] w np v s by auto
  then show ?case using np v s by auto
next
  case (6 c xs)
  then show ?case by simp
next
  case (7 c y ys)
  then show ?case by simp
next
  case (8 c x xs y ys)
  then show ?case by simp
qed

lemma concatArrays_object:
  "concatArrays ov (Some (JObj kvs)) = None"
proof (cases ov)
  case None
  then show ?thesis by simp
next
  case (Some v)
  then show ?thesis by (cases v) simp_all
qed

lemma concatArrays_scalar:
  "\<not> isObject sv \<Longrightarrow> concatArrays ov (Some sv) = None"
proof (cases ov)
  case None
  then show ?thesis by simp
next
  case (Some v)
  assume "\<not> isObject sv"
  then show ?thesis using Some by (cases v; cases sv) simp_all
qed

lemma concatArrays_onto_scalar:
  "\<not> isObject ev \<Longrightarrow> concatArrays (Some ev) sv = None"
proof (cases sv)
  case None
  then show ?thesis by (cases ev) simp_all
next
  case (Some v)
  assume "\<not> isObject ev"
  then show ?thesis using Some by (cases ev; cases v) simp_all
qed

lemma concatArrays_undefined: "concatArrays None sv = None"
  by simp

lemma get_path_Cons_obj:
  "get_path (JObj kvs) (k # ks) = Some (JObj x) \<Longrightarrow>
   \<exists>kvs'. obj_get kvs k = Some (JObj kvs') \<and> get_path (JObj kvs') ks = Some (JObj x)"
proof -
  assume a: "get_path (JObj kvs) (k # ks) = Some (JObj x)"
  then obtain v where v: "obj_get kvs k = Some v" and p: "get_path v ks = Some (JObj x)"
    by (auto split: option.splits)
  show ?thesis
  proof (cases ks)
    case Nil
    then show ?thesis using v p by simp
  next
    case (Cons k' ks')
    then show ?thesis using v p by (cases v) simp_all
  qed
qed

lemma get_path_snoc:
  "get_path v (ps @ [k]) = Some x \<Longrightarrow>
   \<exists>kvs. get_path v ps = Some (JObj kvs) \<and> obj_get kvs k = Some x"
proof (induction ps arbitrary: v)
  case Nil
  then show ?case by (cases v) (auto split: option.splits)
next
  case (Cons a ps)
  then show ?case by (cases v) (auto split: option.splits)
qed

lemma get_path_snoc_intro:
  "get_path v ps = Some (JObj kvs) \<Longrightarrow> obj_get kvs k = Some x \<Longrightarrow>
   get_path v (ps @ [k]) = Some x"
proof (induction ps arbitrary: v)
  case Nil
  then show ?case by simp
next
  case (Cons a ps)
  then show ?case by (cases v) (auto split: option.splits)
qed

lemma merge_path_objects:
  "wf_obj src \<Longrightarrow> proto_safe (JObj src) \<Longrightarrow> get_path (JObj object) p = Some (JObj eo) \<Longrightarrow>
   get_path (JObj src) p = Some (JObj so) \<Longrightarrow>
   get_path (JObj (baseMerge concatArrays object src)) p
     = Some (JObj (baseMerge concatArrays eo so)) \<and> wf_obj so \<and> proto_safe (JObj so)"
proof (induction p arbitrary: object src)
  case Nil
  then show ?case by simp
next
  case (Cons k ks)
  obtain o1 where o1: "obj_get object k = Some (JObj o1)"
      and po: "get_path (JObj o1) ks = Some (JObj eo)"
    using get_path_Cons_obj [OF Cons.prems(3)] by blast
  obtain s1 where s1: "obj_get src k = Some (JObj s1)"
      and ps: "get_path (JObj s1) ks = Some (JObj so)"
    using get_path_Cons_obj [OF Cons.prems(4)] by blast
  have wf1: "wf_obj s1"
    using wf_obj_member [OF Cons.prems(1) s1] by (simp add: wf_obj_def)
  have safe1: "proto_safe (JObj s1)" and k: "k \<noteq> ''__proto__''"
    using proto_safe_member [OF Cons.prems(2) s1] by auto
  have "obj_get (baseMerge concatArrays object src) k
          = Some (JObj (baseMerge concatArrays o1 s1))"
    using wf_obj_distinct [OF Cons.prems(1)] o1 s1 k
    by (simp add: baseMerge_get concatArrays_object safeGet_simps)
  then show ?case
    using Cons.IH [OF wf1 safe1 po ps] by simp
qed

lemma merge_path_arrays:
  assumes "wf_obj src" and "proto_safe (JObj src)" and "p \<noteq> []"
    and "get_path (JObj object) p = Some (JArr xs)"
    and "get_path (JObj src) p = Some (JArr ys)"
  shows "get_path (JObj (baseMerge concatArrays object src)) p = Some (JArr (xs @ ys))"
proof -
  obtain ps k where p: "p = ps @ [k]"
    using assms(3) by (cases p rule: rev_cases) auto
  obtain eo where eo: "get_path (JObj object) ps = Some (JObj eo)"
      and ek: "obj_get eo k = Some (JArr xs)"
    using get_path_snoc assms(4) p by blast
  obtain so where so: "get_path (JObj src) ps = Some (JObj so)"
      and sk: "obj_get so k = Some (JArr ys)"
    using get_path_snoc assms(5) p by blast
  have m: "get_path (JObj (baseMerge concatArrays object src)) ps
             = Some (JObj (baseMerge concatArrays eo so))"
    and wf: "wf_obj so" and safe: "proto_safe (JObj so)"
    using merge_path_objects [OF assms(1,2) eo so] by simp_all
  have k: "k \<noteq> ''__proto__''"
    using proto_safe_member [OF safe sk] by auto
  have "obj_get (baseMerge concatArrays eo so) k = Some (JArr (xs @ ys))"
    using wf_obj_distinct [OF wf] ek sk k by (simp add: baseMerge_get safeGet_simps)
  then show ?thesis
    using m p by (simp add: get_path_snoc_intro)
qed

lemma merge_value_undefined:
  "wf_json sv \<Longrightarrow> proto_safe sv \<Longrightarrow> merge_value concatArrays None sv = sv"
  by (rule merge_fresh(1)) simp_all

lemma merge_value_scalar:
  "\<not> isObject sv \<Longrightarrow> merge_value concatArrays ov sv = sv"
  by (cases sv) (simp_all add: concatArrays_scalar)

lemma merge_value_onto_scalar:
  assumes "\<not> isObject ev" and "wf_json sv" and "proto_safe sv"
  shows "merge_value concatArrays (Some ev) sv = sv"
proof (cases sv)
  case (JArr ys)
  have "merge_elems concatArrays [] ys = ys"
    using assms(2,3) JArr by (intro merge_fresh(3)) simp_all
  then show ?thesis
    using assms(1) JArr by (cases ev) (simp_all add: concatArrays_onto_scalar)
next
  case (JObj skvs)
  have "baseMerge concatArrays [] skvs = [] @ skvs"
    using assms(2,3) JObj by (intro merge_fresh(2)) simp_all
  then show ?thesis
    using assms(1) JObj by (cases ev) (simp_all add: concatArrays_object)
qed (simp_all add: concatArrays_onto_scalar assms(1))

lemma merge_members:
  assumes "wf_obj so" and "proto_safe (JObj so)"
  shows "(obj_get so k = None \<longrightarrow> obj_get (baseMerge concatArrays eo so) k = obj_get eo k)
       \<and> (\<forall>iv. obj_get so k = Some iv \<and> obj_get eo k = None \<longrightarrow>
             obj_get (baseMerge concatArrays eo so) k = Some iv)
       \<and> (\<forall>iv. obj_get so k = Some iv \<and> \<not> isObject iv \<longrightarrow>
             obj_get (baseMerge concatArrays eo so) k = Some iv)
       \<and> (\<forall>iv ev. obj_get so k = Some iv \<and> obj_get eo k = Some ev \<and> \<not> isObject ev \<longrightarrow>
             obj_get (baseMerge concatArrays eo so) k = Some iv)"
proof (cases "obj_get so k")
  case None
  then show ?thesis
    using wf_obj_distinct [OF assms(1)] by (simp add: baseMerge_get)
next
  case (Some iv)
  have wf: "wf_json iv" using wf_obj_member [OF assms(1) Some] .
  have safe: "proto_safe iv" and np: "k = ''__proto__'' \<longrightarrow> \<not> isObject iv"
    using proto_safe_member [OF assms(2) Some] by simp_all
  have g: "obj_get (baseMerge concatArrays eo so) k
             = Some (merge_value concatArrays (safeGet eo k) iv)"
    using wf_obj_distinct [OF assms(1)] Some np by (auto simp: baseMerge_get)
  show ?thesis
  proof (cases "isObject iv")
    case False
    then show ?thesis using Some g by (simp add: merge_value_scalar)
  next
    case True
    then have k: "safeGet eo k = obj_get eo k" using np by (simp add: safeGet_def)
    show ?thesis
      using Some g k wf safe True
      by (auto simp: merge_value_undefined merge_value_onto_scalar)
  qed
qed

section \<open>extendJson\<close>

lemma extendJson_read:
  "readJSON (fs (extendJson dest nc cz g)) (destinationPath g dest) [] =
     mergeWith (readJSON (fs g) (destinationPath g dest) []) nc
       (case cz of None \<Rightarrow> concatArrays | Some c \<Rightarrow> c)"
  by (simp add: extendJson_def Let_def readJSON_def writeJSON_def)

lemma extendJson_destinationPath [simp]:
  "destinationPath (extendJson dest nc cz g) = destinationPath g"
  by (simp add: extendJson_def Let_def)

lemma packageJson_extendPackage:
  "packageJson (extendPackage nc cz g) =
     baseMerge (case cz of None \<Rightarrow> concatArrays | Some c \<Rightarrow> c) (packageJson g) nc"
  by (simp add: packageJson_def extendPackage_def extendJson_read mergeWith_def)

lemma packageJson_written:
  "packageJson (g\<lparr>fs := writeJSON (fs g) (destinationPath g ''package.json'') pkg indent\<rparr>) = pkg"
  by (simp add: packageJson_def readJSON_def writeJSON_def)

lemma readJSON_example_file:
  "readJSON (fs (example_file dest object)) (destinationPath (example_file dest object) dest) []
     = object"
  by (simp add: example_file_def example_generator_def readJSON_def)

lemma packageJson_example: "packageJson (example_package pkg) = pkg"
  by (simp add: packageJson_def example_package_def readJSON_example_file)

lemma extendJson_example_file:
  "readJSON (fs (extendJson dest nc cz (example_file dest object))) (''/project/'' @ dest) []
     = baseMerge (case cz of None \<Rightarrow> concatArrays | Some c \<Rightarrow> c) object nc"
  using extendJson_read [of dest nc cz "example_file dest object"]
  by (simp add: readJSON_example_file mergeWith_def)
     (simp add: example_file_def example_generator_def)

text \<open>
  Claim C5, as amended. \<^verbatim>\<open>extendJson\<close> with the default customizer, for every existing
  document and every incoming object in which no member named \<^verbatim>\<open>__proto__\<close> holds an
  object or an array (paths are lists of member names, read through objects):
  \<^item> where both documents hold an array at a path, the result holds the existing array
    followed by the incoming one;
  \<^item> where both hold an object at a path (the root included), the result holds an object
    there, and member by member: a name the incoming object lacks keeps its existing value,
    a name only the incoming object has gets the incoming value, an incoming scalar
    replaces whatever was there, and an existing scalar is replaced by the incoming value;
  \<^item> merging \<^verbatim>\<open>{a:[1,2]}\<close> into \<^verbatim>\<open>{a:[3,4]}\<close> gives \<^verbatim>\<open>{a:[3,4,1,2]}\<close>, and merging
    \<^verbatim>\<open>{a:{x:1}}\<close> into \<^verbatim>\<open>{a:{y:2}}\<close> gives the object with the members \<^verbatim>\<open>x: 1\<close> and
    \<^verbatim>\<open>y: 2\<close> (the existing member \<^verbatim>\<open>y\<close> is enumerated first).
\<close>

theorem extendJson_default_merge:
  assumes "wf_obj incoming" and "proto_safe (JObj incoming)"
  shows "(let path = destinationPath g dest;
              existing = readJSON (fs g) path [];
              result = readJSON (fs (extendJson dest incoming None g)) path []
          in (\<forall>p xs ys.
                p \<noteq> [] \<and> get_path (JObj existing) p = Some (JArr xs)
                  \<and> get_path (JObj incoming) p = Some (JArr ys)
                \<longrightarrow> get_path (JObj result) p = Some (JArr (xs @ ys)))
           \<and> (\<forall>p eo io.
                get_path (JObj existing) p = Some (JObj eo)
                  \<and> get_path (JObj incoming) p = Some (JObj io)
                \<longrightarrow> (\<exists>ro. get_path (JObj result) p = Some (JObj ro)
                      \<and> (\<forall>k. (obj_get io k = None \<longrightarrow> obj_get ro k = obj_get eo k)
                             \<and> (\<forall>iv. obj_get io k = Some iv \<and> obj_get eo k = None
                                     \<longrightarrow> obj_get ro k = Some iv)
                             \<and> (\<forall>iv. obj_get io k = Some iv \<and> \<not> isObject iv
                                     \<longrightarrow> obj_get ro k = Some iv)
                             \<and> (\<forall>iv ev. obj_get io k = Some iv \<and> obj_get eo k = Some ev
                                        \<and> \<not> isObject ev
                                     \<longrightarrow> obj_get ro k = Some iv)))))
       \<and> readJSON (fs (extendJson ''a.json'' [(''a'', JArr [JNum 1, JNum 2])] None
                         (example_file ''a.json'' [(''a'', JArr [JNum 3, JNum 4])])))
            ''/project/a.json'' []
           = [(''a'', JArr [JNum 3, JNum 4, JNum 1, JNum 2])]
       \<and> readJSON (fs (extendJson ''a.json'' [(''a'', JObj [(''x'', JNum 1)])] None
                         (example_file ''a.json'' [(''a'', JObj [(''y'', JNum 2)])])))
            ''/project/a.json'' []
           = [(''a'', JObj [(''y'', JNum 2), (''x'', JNum 1)])]
       \<and> map_of [(''y'', JNum 2), (''x'', JNum 1)] = map_of [(''x'', JNum 1), (''y'', JNum 2)]"
proof -
  let ?existing = "readJSON (fs g) (destinationPath g dest) []"
  let ?result = "baseMerge concatArrays ?existing incoming"
  have r: "readJSON (fs (extendJson dest incoming None g)) (destinationPath g dest) [] = ?result"
    by (simp add: extendJson_read mergeWith_def)
  have arrays: "\<forall>p xs ys.
                p \<noteq> [] \<and> get_path (JObj ?existing) p = Some (JArr xs)
                  \<and> get_path (JObj incoming) p = Some (JArr ys)
                \<longrightarrow> get_path (JObj ?result) p = Some (JArr (xs @ ys))"
    using merge_path_arrays [OF assms] by blast
  have objects: "\<forall>p eo io.
                get_path (JObj ?existing) p = Some (JObj eo)
                  \<and> get_path (JObj incoming) p = Some (JObj io)
                \<longrightarrow> (\<exists>ro. get_path (JObj ?result) p = Some (JObj ro)
                      \<and> (\<forall>k. (obj_get io k = None \<longrightarrow> obj_get ro k = obj_get eo k)
                             \<and> (\<forall>iv. obj_get io k = Some iv \<and> obj_get eo k = None
                                     \<longrightarrow> obj_get ro k = Some iv)
                             \<and> (\<forall>iv. obj_get io k = Some iv \<and> \<not> isObject iv
                                     \<longrightarrow> obj_get ro k = Some iv)
                             \<and> (\<forall>iv ev. obj_get io k = Some iv \<and> obj_get eo k = Some ev
                                        \<and> \<not> isObject ev
                                     \<longrightarrow> obj_get ro k = Some iv)))"
  proof (intro allI impI)
    fix p eo io
    assume a: "get_path (JObj ?existing) p = Some (JObj eo)
                  \<and> get_path (JObj incoming) p = Some (JObj io)"
    have m: "get_path (JObj ?result) p = Some (JObj (baseMerge concatArrays eo io))"
      and wf: "wf_obj io" and safe: "proto_safe (JObj io)"
      using merge_path_objects [OF assms, of ?existing p eo io] a by simp_all
    show "\<exists>ro. get_path (JObj ?result) p = Some (JObj ro)
                      \<and> (\<forall>k. (obj_get io k = None \<longrightarrow> obj_get ro k = obj_get eo k)
                             \<and> (\<forall>iv. obj_get io k = Some iv \<and> obj_get eo k = None
                                     \<longrightarrow> obj_get ro k = Some iv)
                             \<and> (\<forall>iv. obj_get io k = Some iv \<and> \<not> isObject iv
                                     \<longrightarrow> obj_get ro k = Some iv)
                             \<and> (\<forall>iv ev. obj_get io k = Some iv \<and> obj_get eo k = Some ev
                                        \<and> \<not> isObject ev
                                     \<longrightarrow> obj_get ro k = Some iv))"
      using m merge_members [OF wf safe, of _ eo] by blast
  qed
  have ex1: "readJSON (fs (extendJson ''a.json'' [(''a'', JArr [JNum 1, JNum 2])] None
                         (example_file ''a.json'' [(''a'', JArr [JNum 3, JNum 4])])))
            ''/project/a.json'' []
           = [(''a'', JArr [JNum 3, JNum 4, JNum 1, JNum 2])]"
    by (simp add: extendJson_example_file [of "''a.json''", simplified] obj_get_simps
          obj_set_def obj_has_def safeGet_def)
  have ex2: "readJSON (fs (extendJson ''a.json'' [(''a'', JObj [(''x'', JNum 1)])] None
                         (example_file ''a.json'' [(''a'', JObj [(''y'', JNum 2)])])))
            ''/project/a.json'' []
           = [(''a'', JObj [(''y'', JNum 2), (''x'', JNum 1)])]"
    by (simp add: extendJson_example_file [of "''a.json''", simplified] obj_get_simps
          obj_set_def obj_has_def key_before_def index_simps safeGet_def)
  have ex3: "map_of [(''y'', JNum 2), (''x'', JNum 1)] = map_of [(''x'', JNum 1), (''y'', JNum 2)]"
    by (rule ext) simp
  show ?thesis
    unfolding Let_def r using arrays objects ex1 ex2 ex3 by blast
qed

text \<open>Witness: the first example of the claim, read off the general statement.\<close>

theorem extendJson_default_merge_witness:
  "wf_obj [(''a'', JArr [JNum 1, JNum 2])]
   \<and> proto_safe (JObj [(''a'', JArr [JNum 1, JNum 2])])
   \<and> get_path (JObj (readJSON (fs (extendJson ''a.json'' [(''a'', JArr [JNum 1, JNum 2])] None
                         (example_file ''a.json'' [(''a'', JArr [JNum 3, JNum 4])])))
                      ''/project/a.json'' [])) [''a'']
       = Some (JArr [JNum 3, JNum 4, JNum 1, JNum 2])"
proof -
  have wf: "wf_obj [(''a'', JArr [JNum 1, JNum 2])]"
    by (simp add: wf_obj_def wf_keys_def)
  have safe: "proto_safe (JObj [(''a'', JArr [JNum 1, JNum 2])])"
    by simp
  have p: "destinationPath (example_file ''a.json'' [(''a'', JArr [JNum 3, JNum 4])]) ''a.json''
             = ''/project/a.json''"
    by (simp add: example_file_def example_generator_def)
  have e: "readJSON (fs (example_file ''a.json'' [(''a'', JArr [JNum 3, JNum 4])]))
             ''/project/a.json'' [] = [(''a'', JArr [JNum 3, JNum 4])]"
    using readJSON_example_file [of "''a.json''" "[(''a'', JArr [JNum 3, JNum 4])]"] p by simp
  show ?thesis
    using extendJson_default_merge [OF wf safe,
        of "example_file ''a.json'' [(''a'', JArr [JNum 3, JNum 4])]" "''a.json''"] wf safe
    by (simp add: Let_def p e obj_get_simps)
qed

text \<open>
  Counterexample to C5 as stated. Both documents hold an array under the name
  \<^verbatim>\<open>__proto__\<close>: \<^verbatim>\<open>mergeWith\<close> reads that name as \<^verbatim>\<open>undefined\<close> on both sides, the
  customizer declines, and nothing is stored; the result holds the existing array alone,
  not the existing array followed by the incoming one. In the same way an incoming object
  under \<^verbatim>\<open>__proto__\<close> is not merged key by key into the existing one.
\<close>

theorem extendJson_proto_member_counterexample:
  "get_path (JObj [(''__proto__'', JArr [JNum 2])]) [''__proto__''] = Some (JArr [JNum 2])
   \<and> get_path (JObj [(''__proto__'', JArr [JNum 1])]) [''__proto__''] = Some (JArr [JNum 1])
   \<and> get_path (JObj (readJSON (fs (extendJson ''a.json'' [(''__proto__'', JArr [JNum 1])] None
                         (example_file ''a.json'' [(''__proto__'', JArr [JNum 2])])))
                      ''/project/a.json'' [])) [''__proto__'']
       = Some (JArr [JNum 2])
   \<and> Some (JArr [JNum 2]) \<noteq> Some (JArr ([JNum 2] @ [JNum 1]))
   \<and> readJSON (fs (extendJson ''a.json'' [(''__proto__'', JObj [(''x'', JNum 1)])] None
                         (example_file ''a.json'' [(''__proto__'', JObj [(''y'', JNum 2)])])))
            ''/project/a.json'' []
       = [(''__proto__'', JObj [(''y'', JNum 2)])]"
  by (simp add: extendJson_example_file [of "''a.json''", simplified] obj_get_simps
        obj_set_def obj_has_def safeGet_def)

text \<open>
  Claim C8, as amended. \<^verbatim>\<open>extendJson\<close> always writes the file with a tab as indentation.
  A missing destination file is read as \<^verbatim>\<open>{}\<close>, and then the file written holds exactly
  the incoming contents, provided no member of the contents named \<^verbatim>\<open>__proto__\<close> holds an
  object or an array; this holds for the default customizer and for the two script
  customizers of the package, all of which decline an undefined existing value.
\<close>

theorem extendJson_missing_file:
  "map_option space (fs (extendJson dest newContents cz g) (destinationPath g dest)) = Some tab
   \<and> (fs g (destinationPath g dest) = None \<longrightarrow> readJSON (fs g) (destinationPath g dest) [] = [])
   \<and> (fs g (destinationPath g dest) = None \<and> wf_obj newContents
        \<and> proto_safe (JObj newContents)
        \<and> cz \<in> {None, Some concatArrays, Some appendScripts, Some prependScripts}
      \<longrightarrow> fs (extendJson dest newContents cz g) (destinationPath g dest)
            = Some \<lparr>contents = newContents, space = tab\<rparr>)"
proof -
  let ?c = "case cz of None \<Rightarrow> concatArrays | Some c \<Rightarrow> c"
  have t: "map_option space (fs (extendJson dest newContents cz g) (destinationPath g dest))
             = Some tab"
    by (simp add: extendJson_def Let_def writeJSON_def)
  have m: "fs g (destinationPath g dest) = None \<longrightarrow>
             readJSON (fs g) (destinationPath g dest) [] = []"
    by (simp add: readJSON_def)
  have w: "fs (extendJson dest newContents cz g) (destinationPath g dest)
            = Some \<lparr>contents = newContents, space = tab\<rparr>"
    if a: "fs g (destinationPath g dest) = None" and wf: "wf_obj newContents"
      and safe: "proto_safe (JObj newContents)"
      and d: "cz \<in> {None, Some concatArrays, Some appendScripts, Some prependScripts}"
  proof -
    have dec: "\<forall>sv. ?c None sv = None"
      using d by auto
    have "baseMerge ?c [] newContents = [] @ newContents"
      using dec wf safe by (intro merge_fresh(2)) (simp_all add: wf_obj_def)
    then show ?thesis
      using a by (simp add: extendJson_def Let_def writeJSON_def readJSON_def mergeWith_def)
  qed
  show ?thesis using t m w by blast
qed

text \<open>Witness: a \<^verbatim>\<open>tsconfig.json\<close> written into an empty destination.\<close>

theorem extendJson_missing_file_witness:
  "fs example_generator (destinationPath example_generator ''tsconfig.json'') = None
   \<and> wf_obj [(''compilerOptions'', JObj [(''strict'', JBool True)]), (''include'', JArr [JStr ''src''])]
   \<and> proto_safe (JObj [(''compilerOptions'', JObj [(''strict'', JBool True)]),
                         (''include'', JArr [JStr ''src''])])
   \<and> fs (extendJson ''tsconfig.json''
            [(''compilerOptions'', JObj [(''strict'', JBool True)]), (''include'', JArr [JStr ''src''])]
            None example_generator) ''/project/tsconfig.json''
       = Some \<lparr>contents = [(''compilerOptions'', JObj [(''strict'', JBool True)]),
                              (''include'', JArr [JStr ''src''])],
               space = [CHR 0x09]\<rparr>"
proof -
  have a: "fs example_generator (destinationPath example_generator ''tsconfig.json'') = None"
    by (simp add: example_generator_def)
  have wf: "wf_obj [(''compilerOptions'', JObj [(''strict'', JBool True)]),
                     (''include'', JArr [JStr ''src''])]"
    by (simp add: wf_obj_def wf_keys_def isArrayIndex_def isDigit_def)
  have safe: "proto_safe (JObj [(''compilerOptions'', JObj [(''strict'', JBool True)]),
                                 (''include'', JArr [JStr ''src''])])"
    by simp
  have p: "destinationPath example_generator ''tsconfig.json'' = ''/project/tsconfig.json''"
    by (simp add: example_generator_def)
  show ?thesis
    using extendJson_missing_file [of "''tsconfig.json''" _ None example_generator] a wf safe
    by (simp add: p tab_def)
qed

text \<open>
  Counterexamples to C8 as stated. The destination file is missing and the contents have
  a member \<^verbatim>\<open>__proto__\<close> that holds an object: \<^verbatim>\<open>mergeWith\<close> does not store that member,
  and the file written holds the member \<^verbatim>\<open>a\<close> only, not the contents. And a customizer
  of the caller's that answers \<^verbatim>\<open>null\<close> for every member has its answer written, not the
  contents.
\<close>

theorem extendJson_missing_file_proto_counterexample:
  "fs example_generator (destinationPath example_generator ''a.json'') = None
   \<and> wf_obj [(''__proto__'', JObj [(''x'', JNum 1)]), (''a'', JNum 1)]
   \<and> fs (extendJson ''a.json'' [(''__proto__'', JObj [(''x'', JNum 1)]), (''a'', JNum 1)]
            None example_generator) ''/project/a.json''
       = Some \<lparr>contents = [(''a'', JNum 1)], space = [CHR 0x09]\<rparr>
   \<and> [(''a'', JNum 1)] \<noteq> [(''__proto__'', JObj [(''x'', JNum 1)]), (''a'', JNum 1)]
   \<and> fs (extendJson ''a.json'' [(''a'', JNum 1)] (Some example_customizer)
            example_generator) ''/project/a.json''
       = Some \<lparr>contents = [(''a'', JNull)], space = [CHR 0x09]\<rparr>"
  by (simp add: extendJson_def Let_def readJSON_def writeJSON_def mergeWith_def
        example_customizer_def
        example_generator_def tab_def wf_obj_def wf_keys_def isArrayIndex_def isDigit_def
        obj_get_simps obj_set_def obj_has_def safeGet_def)

section \<open>addScripts\<close>

lemma addScripts_section:
  "obj_get (packageJson (addScripts scripts prepend g)) ''scripts'' =
     Some (merge_value (if prepend = Some True then prependScripts else appendScripts)
             (obj_get (packageJson g) ''scripts'') (JObj scripts))"
  by (cases prepend)
     (auto simp: addScripts_def packageJson_extendPackage obj_get_obj_set safeGet_def)

text \<open>
  \<^verbatim>\<open>addScripts\<close> of \<^verbatim>\<open>src/lib/generator.js\<close> does what claim C1 says, for every script
  name but \<^verbatim>\<open>__proto__\<close> (which \<^verbatim>\<open>mergeWith\<close> reads as \<^verbatim>\<open>undefined\<close>): an existing
  command \<open>e\<close> and an incoming command \<open>n\<close> under one name become \<^verbatim>\<open>e && n\<close>, with
  \<^verbatim>\<open>prepend\<close> set \<^verbatim>\<open>n && e\<close>, and a new name gets its incoming command.
\<close>

lemma addScripts_combines:
  assumes "distinct (map fst scripts)"
    and "obj_get (packageJson g) ''scripts'' = Some (JObj existing)"
  shows "\<exists>result.
           obj_get (packageJson (addScripts scripts prepend g)) ''scripts'' = Some (JObj result)
           \<and> (\<forall>k n. obj_get scripts k = Some (JStr n) \<and> k \<noteq> ''__proto__'' \<longrightarrow>
                 (\<forall>e. obj_get existing k = Some (JStr e) \<longrightarrow>
                    obj_get result k =
                      Some (JStr (if prepend = Some True then n @ '' && '' @ e
                                  else e @ '' && '' @ n)))
                 \<and> (obj_get existing k = None \<longrightarrow> obj_get result k = Some (JStr n)))"
proof -
  let ?c = "if prepend = Some True then prependScripts else appendScripts"
  have "obj_get (packageJson (addScripts scripts prepend g)) ''scripts''
          = Some (JObj (baseMerge ?c existing scripts))"
    using assms(2) by (simp add: addScripts_section)
  moreover have "\<forall>k n. obj_get scripts k = Some (JStr n) \<and> k \<noteq> ''__proto__'' \<longrightarrow>
                 (\<forall>e. obj_get existing k = Some (JStr e) \<longrightarrow>
                    obj_get (baseMerge ?c existing scripts) k =
                      Some (JStr (if prepend = Some True then n @ '' && '' @ e
                                  else e @ '' && '' @ n)))
                 \<and> (obj_get existing k = None \<longrightarrow>
                      obj_get (baseMerge ?c existing scripts) k = Some (JStr n))"
    using assms(1) by (simp add: baseMerge_get safeGet_def)
  ultimately show ?thesis by blast
qed

lemma addScripts_creates_section:
  assumes "wf_obj scripts" and "proto_safe (JObj scripts)"
    and "obj_get (packageJson g) ''scripts'' = None"
  shows "obj_get (packageJson (addScripts scripts prepend g)) ''scripts'' = Some (JObj scripts)"
proof -
  let ?c = "if prepend = Some True then prependScripts else appendScripts"
  have "baseMerge ?c [] scripts = [] @ scripts"
    using assms(1,2) by (intro merge_fresh(2)) (simp_all add: wf_obj_def)
  then show ?thesis
    using assms(3) by (cases "prepend = Some True") (simp_all add: addScripts_section)
qed

text \<open>
  Claim C1 fails on the second copy of the class, the one stored with
  \<^verbatim>\<open>option-prompt.js\<close>: its \<^verbatim>\<open>addScripts\<close> picks \<^verbatim>\<open>prependScripts\<close> when \<^verbatim>\<open>prepend\<close>
  is false and \<^verbatim>\<open>appendScripts\<close> when it is true. Evaluated on the example of the
  specification, \<^verbatim>\<open>addScripts({build: "tsc"})\<close> against the scripts \<^verbatim>\<open>{build: "lint"}\<close>:
  the copy gives \<^verbatim>\<open>tsc && lint\<close> by default and \<^verbatim>\<open>lint && tsc\<close> with \<^verbatim>\<open>prepend\<close>; the
  class of \<^verbatim>\<open>src/lib\<close> gives \<^verbatim>\<open>lint && tsc\<close> and \<^verbatim>\<open>tsc && lint\<close>.
\<close>

theorem addScripts_copy_prepends_by_default:
  "packageJson (addScripts_copy [(''build'', JStr ''tsc'')] None
      (example_package [(''scripts'', JObj [(''build'', JStr ''lint'')])]))
     = [(''scripts'', JObj [(''build'', JStr ''tsc && lint'')])]
   \<and> packageJson (addScripts_copy [(''build'', JStr ''tsc'')] (Some True)
      (example_package [(''scripts'', JObj [(''build'', JStr ''lint'')])]))
     = [(''scripts'', JObj [(''build'', JStr ''lint && tsc'')])]
   \<and> packageJson (addScripts [(''build'', JStr ''tsc'')] None
      (example_package [(''scripts'', JObj [(''build'', JStr ''lint'')])]))
     = [(''scripts'', JObj [(''build'', JStr ''lint && tsc'')])]
   \<and> packageJson (addScripts [(''build'', JStr ''tsc'')] (Some True)
      (example_package [(''scripts'', JObj [(''build'', JStr ''lint'')])]))
     = [(''scripts'', JObj [(''build'', JStr ''tsc && lint'')])]"
  by (simp add: addScripts_copy_def addScripts_def packageJson_extendPackage packageJson_example
        obj_get_simps obj_set_def obj_has_def safeGet_def)

section \<open>sortScripts\<close>

lemma set_first_occurrences: "set (first_occurrences xs) = set xs"
  by (induction xs) auto

lemma concat_map_filter_neq:
  "f n = [] \<Longrightarrow> concat (map f (filter (\<lambda>y. y \<noteq> n) ys)) = concat (map f ys)"
  by (induction ys) auto

lemma listed_scripts_Cons_present:
  assumes "obj_get scripts n = Some v"
  shows "listed_scripts (n # names) scripts = (n, v) # listed_scripts names (obj_delete scripts n)"
proof -
  let ?f = "\<lambda>m. case obj_get scripts m of Some v \<Rightarrow> [(m, v)] | None \<Rightarrow> []"
  let ?g = "\<lambda>m. case obj_get (obj_delete scripts n) m of Some v \<Rightarrow> [(m, v)] | None \<Rightarrow> []"
  have g: "?g = (\<lambda>m. if m = n then [] else ?f m)"
    by (auto simp: obj_get_obj_delete)
  have "concat (map ?g ys) = concat (map ?f (filter (\<lambda>y. y \<noteq> n) ys))" for ys
    unfolding g by (induction ys) auto
  then show ?thesis
    using assms by (simp add: listed_scripts_def)
qed

lemma listed_scripts_Cons_absent:
  assumes "obj_get scripts n = None"
  shows "listed_scripts (n # names) scripts = listed_scripts names scripts"
  using assms by (simp add: listed_scripts_def concat_map_filter_neq)

lemma listed_scripts_names: "fst ` set (listed_scripts names scripts) \<subseteq> set names"
proof -
  have "set (first_occurrences xs) \<subseteq> set xs" for xs :: "string list"
    by (induction xs) auto
  then show ?thesis
    by (fastforce simp: listed_scripts_def split: option.splits)
qed

lemma listed_scripts_keys:
  "map fst (listed_scripts names scripts) = filter (obj_has scripts) (first_occurrences names)"
proof -
  have h: "obj_has scripts n \<longleftrightarrow> obj_get scripts n \<noteq> None" for n
    by (simp add: obj_has_def obj_get_None_iff)
  have "map fst (concat (map (\<lambda>n. case obj_get scripts n of Some v \<Rightarrow> [(n, v)] | None \<Rightarrow> []) ys))
          = filter (obj_has scripts) ys" for ys
    by (induction ys) (auto simp: h split: option.splits)
  then show ?thesis by (simp add: listed_scripts_def)
qed

lemma listed_scripts_get:
  "obj_get (listed_scripts names scripts) k = (if k \<in> set names then obj_get scripts k else None)"
proof -
  have "obj_get (concat (map (\<lambda>n. case obj_get scripts n of Some v \<Rightarrow> [(n, v)] | None \<Rightarrow> []) ys)) k
          = (if k \<in> set ys then obj_get scripts k else None)" for ys
    by (induction ys) (auto simp: obj_get_def split: option.splits)
  then show ?thesis by (simp add: listed_scripts_def set_first_occurrences)
qed

lemma sorted_scripts_spec_get:
  "obj_get (sorted_scripts_spec names scripts) k = obj_get scripts k"
  using obj_get_filter_keys [of "\<lambda>k. k \<notin> set names" scripts k]
  by (simp add: sorted_scripts_spec_def obj_get_append listed_scripts_get
        split: option.splits)

lemma sorted_scripts_spec_keys:
  "map fst (sorted_scripts_spec names scripts) =
     filter (obj_has scripts) (first_occurrences names)
     @ filter (\<lambda>k. k \<notin> set names) (map fst scripts)"
  by (simp add: sorted_scripts_spec_def listed_scripts_keys filter_map comp_def)

lemma obj_assign_ordinary: "k \<noteq> ''__proto__'' \<Longrightarrow> obj_assign kvs k v = obj_set kvs k v"
  by (simp add: obj_assign_def)

lemma obj_delete_absent: "k \<notin> fst ` set kvs \<Longrightarrow> obj_delete kvs k = kvs"
  by (induction kvs) (auto simp: obj_delete_def)

lemma distinct_filter_weaken:
  "distinct (filter P xs) \<Longrightarrow> (\<And>x. Q x \<Longrightarrow> P x) \<Longrightarrow> distinct (filter Q xs)"
  by (induction xs) (auto split: if_splits)

text \<open>
  The loop invariant: with no array index among the script names, no listed script named
  \<^verbatim>\<open>__proto__\<close>, and no script with an inherited name listed twice, every listed script
  found is appended to \<^verbatim>\<open>sorted\<close> and removed from \<^verbatim>\<open>scripts\<close>.
\<close>

lemma sortLoop_result:
  "distinct (map fst scripts) \<Longrightarrow> \<forall>k \<in> fst ` set scripts. \<not> isArrayIndex k \<Longrightarrow>
   fst ` set acc \<inter> fst ` set scripts = {} \<Longrightarrow>
   \<not> (''__proto__'' \<in> set names \<and> obj_has scripts ''__proto__'') \<Longrightarrow>
   distinct (filter (\<lambda>n. n \<in> set objectPrototypeNames \<and> obj_has scripts n) names) \<Longrightarrow>
   \<forall>n \<in> set names. n \<in> set objectPrototypeNames \<longrightarrow> n \<notin> fst ` set acc \<Longrightarrow>
   sortLoop names acc scripts =
     (acc @ listed_scripts names scripts, filter (\<lambda>kv. fst kv \<notin> set names) scripts)"
proof (induction names arbitrary: acc scripts)
  case Nil
  then show ?case by (simp add: listed_scripts_def)
next
  case (Cons n names)
  show ?case
  proof (cases "obj_get scripts n")
    case None
    then have "n \<notin> fst ` set scripts" by (simp add: obj_get_None_iff)
    then have f: "filter (\<lambda>kv. fst kv \<notin> set (n # names)) scripts
                  = filter (\<lambda>kv. fst kv \<notin> set names) scripts"
      by (intro filter_cong) auto
    have q: "\<not> (''__proto__'' \<in> set names \<and> obj_has scripts ''__proto__'')"
      using Cons.prems(4) by auto
    have u: "distinct (filter (\<lambda>n. n \<in> set objectPrototypeNames \<and> obj_has scripts n) names)"
      using Cons.prems(5) by (simp split: if_splits)
    have a: "\<forall>n \<in> set names. n \<in> set objectPrototypeNames \<longrightarrow> n \<notin> fst ` set acc"
      using Cons.prems(6) by simp
    have del: "n \<in> set objectPrototypeNames \<Longrightarrow> obj_delete acc n = acc"
      using Cons.prems(6) by (simp add: obj_delete_absent)
    show ?thesis
      using None Cons.IH [OF Cons.prems(1,2,3) q u a] f del
      by (simp add: listed_scripts_Cons_absent)
  next
    case (Some v)
    then have mem: "n \<in> fst ` set scripts"
      using obj_get_None_iff [of scripts n] by simp
    have notin: "n \<notin> fst ` set acc" using mem Cons.prems(3) by auto
    have noidx: "\<not> isArrayIndex n" using mem Cons.prems(2) by blast
    have ordinary: "n \<noteq> ''__proto__''"
      using mem Cons.prems(4) by (force simp: obj_has_def)
    have s: "obj_assign acc n v = acc @ [(n, v)]"
      using notin noidx ordinary by (simp add: obj_assign_ordinary obj_set_new_name)
    have d: "distinct (map fst (obj_delete scripts n))"
      using Cons.prems(1) by (simp add: obj_delete_def distinct_map_filter)
    have i: "\<forall>k \<in> fst ` set (obj_delete scripts n). \<not> isArrayIndex k"
      using Cons.prems(2) by (auto simp: obj_delete_def)
    have j: "fst ` set (acc @ [(n, v)]) \<inter> fst ` set (obj_delete scripts n) = {}"
      using Cons.prems(3) by (auto simp: obj_delete_def)
    have q: "\<not> (''__proto__'' \<in> set names \<and> obj_has (obj_delete scripts n) ''__proto__'')"
      using Cons.prems(4) by (auto simp: obj_has_def obj_delete_def)
    have u0: "distinct (filter (\<lambda>m. m \<in> set objectPrototypeNames \<and> obj_has scripts m) names)"
      using Cons.prems(5) by (simp split: if_splits)
    have u: "distinct (filter (\<lambda>m. m \<in> set objectPrototypeNames
                                    \<and> obj_has (obj_delete scripts n) m) names)"
      using u0 by (rule distinct_filter_weaken) (auto simp: obj_has_def obj_delete_def)
    have once: "n \<in> set objectPrototypeNames \<Longrightarrow> n \<notin> set names"
      using Cons.prems(5) mem by (auto simp: obj_has_def split: if_splits)
    have a: "\<forall>m \<in> set names. m \<in> set objectPrototypeNames
               \<longrightarrow> m \<notin> fst ` set (acc @ [(n, v)])"
      using Cons.prems(6) once by auto
    have f: "filter (\<lambda>kv. fst kv \<notin> set names) (obj_delete scripts n)
                  = filter (\<lambda>kv. fst kv \<notin> set (n # names)) scripts"
      by (simp add: obj_delete_def conj_commute)
    show ?thesis
      using Some s Cons.IH [OF d i j q u a] f
      by (simp add: listed_scripts_Cons_present)
  qed
qed

lemma assign_append:
  "distinct (map fst rest) \<Longrightarrow> \<forall>k \<in> fst ` set rest. \<not> isArrayIndex k \<Longrightarrow>
   fst ` set acc \<inter> fst ` set rest = {} \<Longrightarrow> assign acc rest = acc @ rest"
proof (induction rest arbitrary: acc)
  case Nil
  then show ?case by simp
next
  case (Cons kv rest)
  obtain k v where kv: "kv = (k, v)" by (cases kv)
  have s: "obj_set acc k v = acc @ [(k, v)]"
    using Cons.prems kv by (intro obj_set_new_name) auto
  have "assign (acc @ [(k, v)]) rest = (acc @ [(k, v)]) @ rest"
    using Cons.prems kv by (intro Cons.IH) auto
  then show ?case using s kv by simp
qed

lemma sort_section:
  assumes "distinct (map fst scripts)" and "\<forall>k \<in> fst ` set scripts. \<not> isArrayIndex k"
    and "\<not> (''__proto__'' \<in> set names \<and> obj_has scripts ''__proto__'')"
    and "distinct (filter (\<lambda>n. n \<in> set objectPrototypeNames \<and> obj_has scripts n) names)"
  shows "(case sortLoop names [] scripts of (acc, rest) \<Rightarrow> assign acc rest)
           = sorted_scripts_spec names scripts"
proof -
  have l: "sortLoop names [] scripts =
     ([] @ listed_scripts names scripts, filter (\<lambda>kv. fst kv \<notin> set names) scripts)"
    using assms by (intro sortLoop_result) simp_all
  have "assign (listed_scripts names scripts) (filter (\<lambda>kv. fst kv \<notin> set names) scripts)
          = listed_scripts names scripts @ filter (\<lambda>kv. fst kv \<notin> set names) scripts"
  proof (rule assign_append)
    show "distinct (map fst (filter (\<lambda>kv. fst kv \<notin> set names) scripts))"
      using assms(1) by (simp add: distinct_map_filter)
    show "\<forall>k \<in> fst ` set (filter (\<lambda>kv. fst kv \<notin> set names) scripts). \<not> isArrayIndex k"
      using assms(2) by auto
    show "fst ` set (listed_scripts names scripts)
            \<inter> fst ` set (filter (\<lambda>kv. fst kv \<notin> set names) scripts) = {}"
      using listed_scripts_names [of names scripts] by auto
  qed
  then show ?thesis using l by (simp add: sorted_scripts_spec_def)
qed

text \<open>
  Claim C6, as amended. For every scripts mapping of the package manifest in which no
  script name is an array index, and every list of names that names no script called
  \<^verbatim>\<open>__proto__\<close> and names no script twice whose name every object inherits
  (\<^verbatim>\<open>constructor\<close>, \<^verbatim>\<open>toString\<close> and the like), \<^verbatim>\<open>sortScripts\<close> writes the manifest back
  with the scripts rearranged as the specification says: the names that are both in
  the list and in the mapping first, in list order (a name listed twice counts once, where
  it stands first; names absent from the mapping are skipped), then the remaining scripts
  in their original relative order; every name keeps its command, and the other members of
  the manifest are untouched. The file is written with a tab as indentation.
\<close>

theorem sortScripts_rearranges:
  assumes "obj_get (packageJson g) ''scripts'' = Some (JObj scripts)"
    and "distinct (map fst scripts)"
    and "list_all (\<lambda>k. \<not> isArrayIndex k) (map fst scripts)"
    and "\<not> (''__proto__'' \<in> set names \<and> obj_has scripts ''__proto__'')"
    and "distinct (filter (\<lambda>n. n \<in> set objectPrototypeNames \<and> obj_has scripts n) names)"
  shows "sortScripts names g =
           Inr (g\<lparr>fs := writeJSON (fs g) (destinationPath g ''package.json'')
                          (obj_set (packageJson g) ''scripts''
                             (JObj (sorted_scripts_spec names scripts))) tab\<rparr>)
       \<and> map fst (sorted_scripts_spec names scripts) =
           filter (obj_has scripts) (first_occurrences names)
           @ filter (\<lambda>k. k \<notin> set names) (map fst scripts)
       \<and> (\<forall>k. obj_get (sorted_scripts_spec names scripts) k = obj_get scripts k)"
proof -
  have i: "\<forall>k \<in> fst ` set scripts. \<not> isArrayIndex k"
    using assms(3) by (simp add: list_all_iff)
  have "(case sortLoop names [] scripts of (acc, rest) \<Rightarrow> assign acc rest)
           = sorted_scripts_spec names scripts"
    using assms(2) i assms(4) assms(5) by (rule sort_section)
  then have "sortScripts names g =
           Inr (g\<lparr>fs := writeJSON (fs g) (destinationPath g ''package.json'')
                          (obj_set (packageJson g) ''scripts''
                             (JObj (sorted_scripts_spec names scripts))) tab\<rparr>)"
    using assms(1)
    by (simp add: sortScripts_def Let_def packageJson_def obj_assign_def split: prod.splits)
  then show ?thesis
    by (simp add: sorted_scripts_spec_keys sorted_scripts_spec_get)
qed

text \<open>
  Witness: the example of the specification, \<^verbatim>\<open>sortScripts(["test", "build"])\<close> against
  \<^verbatim>\<open>{lint: "x", build: "y", test: "z"}\<close>.
\<close>

theorem sortScripts_rearranges_witness:
  "obj_get (packageJson (example_package
      [(''name'', JStr ''app''),
       (''scripts'', JObj [(''lint'', JStr ''x''), (''build'', JStr ''y''), (''test'', JStr ''z'')])]))
     ''scripts''
     = Some (JObj [(''lint'', JStr ''x''), (''build'', JStr ''y''), (''test'', JStr ''z'')])
   \<and> distinct (map fst [(''lint'', JStr ''x''), (''build'', JStr ''y''), (''test'', JStr ''z'')])
   \<and> list_all (\<lambda>k. \<not> isArrayIndex k)
        (map fst [(''lint'', JStr ''x''), (''build'', JStr ''y''), (''test'', JStr ''z'')])
   \<and> \<not> (''__proto__'' \<in> set [''test'', ''build'']
        \<and> obj_has [(''lint'', JStr ''x''), (''build'', JStr ''y''), (''test'', JStr ''z'')]
             ''__proto__'')
   \<and> distinct (filter (\<lambda>n. n \<in> set objectPrototypeNames
        \<and> obj_has [(''lint'', JStr ''x''), (''build'', JStr ''y''), (''test'', JStr ''z'')] n)
        [''test'', ''build''])
   \<and> map_sum id packageJson
        (sortScripts [''test'', ''build''] (example_package
           [(''name'', JStr ''app''),
            (''scripts'', JObj [(''lint'', JStr ''x''), (''build'', JStr ''y''), (''test'', JStr ''z'')])]))
       = Inr [(''name'', JStr ''app''),
              (''scripts'', JObj [(''test'', JStr ''z''), (''build'', JStr ''y''), (''lint'', JStr ''x'')])]"
proof -
  let ?scripts = "[(''lint'', JStr ''x''), (''build'', JStr ''y''), (''test'', JStr ''z'')]"
  let ?g = "example_package [(''name'', JStr ''app''), (''scripts'', JObj ?scripts)]"
  have a: "obj_get (packageJson ?g) ''scripts'' = Some (JObj ?scripts)"
    by (simp add: packageJson_example obj_get_simps)
  have b: "distinct (map fst ?scripts)" by simp
  have c: "list_all (\<lambda>k. \<not> isArrayIndex k) (map fst ?scripts)"
    by (simp add: index_simps)
  have d: "\<not> (''__proto__'' \<in> set [''test'', ''build''] \<and> obj_has ?scripts ''__proto__'')"
    by simp
  have e: "distinct (filter (\<lambda>n. n \<in> set objectPrototypeNames \<and> obj_has ?scripts n)
             [''test'', ''build''])"
    by (simp add: objectPrototypeNames_def)
  have s: "sorted_scripts_spec [''test'', ''build''] ?scripts
             = [(''test'', JStr ''z''), (''build'', JStr ''y''), (''lint'', JStr ''x'')]"
    by (simp add: sorted_scripts_spec_def listed_scripts_def obj_get_simps)
  show ?thesis
    using sortScripts_rearranges [OF a b c d e] a b c d e
    by (simp add: s packageJson_written packageJson_example obj_set_def obj_has_def)
qed

text \<open>
  Counterexamples to C6 as stated. A script named \<^verbatim>\<open>1\<close> is an array index, and the object
  that \<^verbatim>\<open>sortScripts\<close> builds enumerates it before every other name: asked for the order
  \<^verbatim>\<open>build\<close>, \<^verbatim>\<open>1\<close>, the file written has \<^verbatim>\<open>1\<close> before \<^verbatim>\<open>build\<close>; and when only
  \<^verbatim>\<open>build\<close> is listed, the unlisted \<^verbatim>\<open>1\<close> still comes before it. A listed script named
  \<^verbatim>\<open>__proto__\<close> is lost: the assignment \<^verbatim>\<open>sorted[name] = scripts[name]\<close> defines no
  property for a string, and \<^verbatim>\<open>delete scripts[name]\<close> removes the script. A script named
  \<^verbatim>\<open>constructor\<close> that is listed twice is lost as well: the second time the name is still
  \<^verbatim>\<open>in scripts\<close>, by inheritance, and the inherited function replaces the command.
\<close>

theorem sortScripts_special_names_counterexample:
  "map_sum id packageJson
     (sortScripts [''build'', ''1''] (example_package
        [(''scripts'', JObj [(''1'', JStr ''x''), (''build'', JStr ''y'')])]))
     = Inr [(''scripts'', JObj [(''1'', JStr ''x''), (''build'', JStr ''y'')])]
   \<and> sorted_scripts_spec [''build'', ''1''] [(''1'', JStr ''x''), (''build'', JStr ''y'')]
       = [(''build'', JStr ''y''), (''1'', JStr ''x'')]
   \<and> map_sum id packageJson
     (sortScripts [''build''] (example_package
        [(''scripts'', JObj [(''1'', JStr ''x''), (''build'', JStr ''y'')])]))
     = Inr [(''scripts'', JObj [(''1'', JStr ''x''), (''build'', JStr ''y'')])]
   \<and> sorted_scripts_spec [''build''] [(''1'', JStr ''x''), (''build'', JStr ''y'')]
       = [(''build'', JStr ''y''), (''1'', JStr ''x'')]
   \<and> map_sum id packageJson
     (sortScripts [''__proto__'', ''build''] (example_package
        [(''scripts'', JObj [(''lint'', JStr ''x''), (''__proto__'', JStr ''p''),
                             (''build'', JStr ''y'')])]))
     = Inr [(''scripts'', JObj [(''build'', JStr ''y''), (''lint'', JStr ''x'')])]
   \<and> sorted_scripts_spec [''__proto__'', ''build'']
        [(''lint'', JStr ''x''), (''__proto__'', JStr ''p''), (''build'', JStr ''y'')]
       = [(''__proto__'', JStr ''p''), (''build'', JStr ''y''), (''lint'', JStr ''x'')]
   \<and> \<not> isArrayIndex ''lint'' \<and> \<not> isArrayIndex ''__proto__'' \<and> \<not> isArrayIndex ''build''
   \<and> \<not> isArrayIndex ''constructor''
   \<and> map_sum id packageJson
     (sortScripts [''constructor'', ''constructor''] (example_package
        [(''scripts'', JObj [(''constructor'', JStr ''x''), (''build'', JStr ''y'')])]))
     = Inr [(''scripts'', JObj [(''build'', JStr ''y'')])]
   \<and> sorted_scripts_spec [''constructor'', ''constructor'']
        [(''constructor'', JStr ''x''), (''build'', JStr ''y'')]
       = [(''constructor'', JStr ''x''), (''build'', JStr ''y'')]"
  by (simp add: sortScripts_def Let_def packageJson_def [symmetric] packageJson_example
        packageJson_written obj_get_simps obj_set_def obj_has_def obj_delete_def key_before_def
        obj_assign_def index_simps sorted_scripts_spec_def listed_scripts_def
        objectPrototypeNames_def)

text \<open>
  Claim C9. With a name to look for, \<^verbatim>\<open>sortScripts\<close> throws a \<^verbatim>\<open>TypeError\<close> when the
  manifest has no \<^verbatim>\<open>scripts\<close> member, also when \<^verbatim>\<open>package.json\<close> is missing and read as
  \<^verbatim>\<open>{}\<close>: \<^verbatim>\<open>name in scripts\<close> is evaluated on \<^verbatim>\<open>undefined\<close>. Nothing is written.
\<close>

theorem sortScripts_without_scripts_throws:
  assumes "names \<noteq> []"
    and "fs g (destinationPath g ''package.json'') = None
         \<or> obj_get (packageJson g) ''scripts'' = None"
  shows "sortScripts names g = Inl TypeError"
proof -
  have "obj_get (packageJson g) ''scripts'' = None"
    using assms(2) by (auto simp: packageJson_def readJSON_def obj_get_simps)
  then show ?thesis
    using assms(1) by (simp add: sortScripts_def Let_def packageJson_def)
qed

text \<open>Witness: no \<^verbatim>\<open>package.json\<close> at all, and a manifest that has only a name.\<close>

theorem sortScripts_without_scripts_throws_witness:
  "[''test''] \<noteq> []
   \<and> fs example_generator (destinationPath example_generator ''package.json'') = None
   \<and> sortScripts [''test''] example_generator = Inl TypeError
   \<and> obj_get (packageJson (example_package [(''name'', JStr ''app'')])) ''scripts'' = None
   \<and> sortScripts [''test''] (example_package [(''name'', JStr ''app'')]) = Inl TypeError"
proof -
  have a: "fs example_generator (destinationPath example_generator ''package.json'') = None"
    by (simp add: example_generator_def)
  have b: "obj_get (packageJson (example_package [(''name'', JStr ''app'')])) ''scripts'' = None"
    by (simp add: packageJson_example obj_get_simps)
  show ?thesis
    using sortScripts_without_scripts_throws [of "[''test'']" example_generator]
      sortScripts_without_scripts_throws [of "[''test'']" "example_package [(''name'', JStr ''app'')]"]
      a b
    by simp
qed

end
